theory Spec2Isabelle
  imports Main "HOL-Library.Sublist"
begin

section \<open>JavaScript values used by the component\<close>

text \<open>
  The component is a TypeScript class \<^verbatim>\<open>Vpc\<close> whose constructor validates its arguments and
  then declares cloud resources through an infrastructure SDK. The model keeps the
  run-time behaviour of the JavaScript that the TypeScript compiles to: an optional field
  or an out-of-range array read is \<^verbatim>\<open>undefined\<close> (here \<open>None\<close>), a \<^verbatim>\<open>throw new Error(msg)\<close> is
  \<open>Inl (Error msg)\<close>, and reading a property of \<^verbatim>\<open>undefined\<close> is \<open>Inl TypeError\<close>.
\<close>

datatype error = Error string | TypeError

text \<open>
  Numbers: the integers and \<^verbatim>\<open>NaN\<close>. Every comparison with \<^verbatim>\<open>NaN\<close> is false. Fractions and
  infinities do not occur: the only numbers of the component are parsed digit strings and
  the retention period in days.
\<close>

datatype number = NaN | Num int

definition lt :: "number \<Rightarrow> number \<Rightarrow> bool" where
  "lt a b = (case (a, b) of (Num x, Num y) \<Rightarrow> x < y | _ \<Rightarrow> False)"

definition gt :: "number \<Rightarrow> number \<Rightarrow> bool" where
  "gt a b = lt b a"

definition is_digit :: "char \<Rightarrow> bool" where
  "is_digit c = (c \<in> set ''0123456789'')"

definition digit_val :: "char \<Rightarrow> int" where
  "digit_val c = int (of_char c) - 48"

definition dec :: "string \<Rightarrow> int" where
  "dec ds = foldl (\<lambda>acc c. 10 * acc + digit_val c) 0 ds"

text \<open>
  \<^verbatim>\<open>parseInt\<close> and \<^verbatim>\<open>Number\<close> on the arguments the validator gives them: the validator calls
  them only after the regular expression has matched, so the argument is a string of
  decimal digits. \<^verbatim>\<open>parseInt\<close> reads the leading digits (\<^verbatim>\<open>NaN\<close> when there is none, and for
  \<^verbatim>\<open>undefined\<close>); \<^verbatim>\<open>Number\<close> reads a string of digits (the empty string is 0). Signs, white
  space and radix prefixes are not modelled and map to \<^verbatim>\<open>NaN\<close>.
\<close>

definition parseInt :: "string option \<Rightarrow> number" where
  "parseInt s = (case s of None \<Rightarrow> NaN
     | Some t \<Rightarrow> (case takeWhile is_digit t of [] \<Rightarrow> NaN | ds \<Rightarrow> Num (dec ds)))"

definition Number :: "string \<Rightarrow> number" where
  "Number t = (if list_all is_digit t then Num (dec t) else NaN)"

text \<open>\<^verbatim>\<open>s.split(sep)\<close> for a separator of one character: never the empty array.\<close>

fun split :: "char \<Rightarrow> string \<Rightarrow> string list" where
  "split sep [] = [[]]"
| "split sep (c # cs) =
     (if c = sep then [] # split sep cs
      else (case split sep cs of w # ws \<Rightarrow> (c # w) # ws | [] \<Rightarrow> [[c]]))"

text \<open>\<^verbatim>\<open>xs[i]\<close>: \<^verbatim>\<open>undefined\<close> out of range.\<close>

definition at :: "'a list \<Rightarrow> nat \<Rightarrow> 'a option" where
  "at xs i = (if i < length xs then Some (xs ! i) else None)"

text \<open>An array index inside a template literal: its decimal digits.\<close>

definition digit_char :: "nat \<Rightarrow> char" where
  "digit_char n = char_of (48 + n)"

fun string_of_nat :: "nat \<Rightarrow> string" where
  "string_of_nat n =
     (if n < 10 then [digit_char n] else string_of_nat (n div 10) @ [digit_char (n mod 10)])"

declare string_of_nat.simps [simp del]

subsection \<open>Regular expressions\<close>

text \<open>
  The fragment of regular expressions the component uses: a decimal digit, a literal
  character, concatenation, and bounded repetition \<open>r{m,n}\<close>. \<open>rests r s\<close> lists what is
  left of \<open>s\<close> after each way of matching \<open>r\<close> at its start (the greedy way first), and
  \<open>test\<close> is \<^verbatim>\<open>RegExp.test\<close> for a pattern anchored at both ends and without flags: the
  pattern has to match the whole string.
\<close>

datatype regex = Digit | Lit char | Cat regex regex | Rep nat nat regex

fun rep :: "(string \<Rightarrow> string list) \<Rightarrow> nat \<Rightarrow> nat \<Rightarrow> string \<Rightarrow> string list" where
  "rep f m 0 s = (if m = 0 then [s] else [])"
| "rep f m (Suc n) s = concat (map (rep f (m - 1) n) (f s)) @ (if m = 0 then [s] else [])"

primrec rests :: "regex \<Rightarrow> string \<Rightarrow> string list" where
  "rests Digit = (\<lambda>s. case s of [] \<Rightarrow> [] | c # cs \<Rightarrow> if is_digit c then [cs] else [])"
| "rests (Lit a) = (\<lambda>s. case s of [] \<Rightarrow> [] | c # cs \<Rightarrow> if c = a then [cs] else [])"
| "rests (Cat r1 r2) = (\<lambda>s. concat (map (rests r2) (rests r1 s)))"
| "rests (Rep m n r) = rep (rests r) m n"

definition test :: "regex \<Rightarrow> string \<Rightarrow> bool" where
  "test r s = ([] \<in> set (rests r s))"

section \<open>Argument validation\<close>

text \<open>
  \<^verbatim>\<open>validateCidrBlock(cidr, name)\<close>. Its pattern is: three times one to three digits and a
  dot, then one to three digits, a slash, and one or two digits.
\<close>

definition cidrRegex :: regex where
  "cidrRegex = Cat (Rep 3 3 (Cat (Rep 1 3 Digit) (Lit CHR ''.'')))
                 (Cat (Rep 1 3 Digit) (Cat (Lit CHR ''/'') (Rep 1 2 Digit)))"

definition validateCidrBlock :: "string \<Rightarrow> string \<Rightarrow> error + unit" where
  "validateCidrBlock cidr name =
     (if \<not> test cidrRegex cidr
      then Inl (Error (name @ '' must be a valid CIDR block (e.g., 10.0.0.0/16)''))
      else (case split CHR ''/'' cidr of
              [] \<Rightarrow> Inl TypeError
            | ip # rest \<Rightarrow>
                let prefix = parseInt (at rest 0) in
                if lt prefix (Num 8) \<or> gt prefix (Num 30)
                then Inl (Error (name @ '' prefix must be between 8 and 30''))
                else let ipParts = map Number (split CHR ''.'' ip) in
                  if list_ex (\<lambda>part. lt part (Num 0) \<or> gt part (Num 255)) ipParts
                  then Inl (Error (name @ '' contains invalid IP address''))
                  else Inr ()))"

text \<open>
  The raw configuration \<^verbatim>\<open>VpcArgs\<close>. Every field may be missing at run time, the required
  ones too: that is what the validator checks.
\<close>

record VpcArgs =
  cidrBlock :: "string option"
  availabilityZones :: "string list option"
  publicSubnetCidrs :: "string list option"
  privateSubnetCidrs :: "string list option"
  environment :: "string option"
  project :: "string option"
  instanceTenancy :: "string option"
  enableNatGateway :: "bool option"
  enableFlowLogs :: "bool option"
  flowLogRetentionDays :: "number option"
  tags :: "(string \<rightharpoonup> string) option"

text \<open>\<^verbatim>\<open>!s\<close> for an optional string: \<^verbatim>\<open>undefined\<close> and the empty string are falsy.\<close>

definition falsy :: "string option \<Rightarrow> bool" where
  "falsy s = (s = None \<or> s = Some [])"

text \<open>The string a value is converted to where a string is expected.\<close>

definition str :: "string option \<Rightarrow> string" where
  "str s = (case s of None \<Rightarrow> ''undefined'' | Some t \<Rightarrow> t)"

text \<open>Sequencing of steps that may throw.\<close>

definition thenE :: "error + 'a \<Rightarrow> ('a \<Rightarrow> error + 'b) \<Rightarrow> error + 'b" where
  "thenE r k = (case r of Inl e \<Rightarrow> Inl e | Inr x \<Rightarrow> k x)"

text \<open>\<^verbatim>\<open>xs.forEach((x, index) => ...)\<close> with a callback that may throw.\<close>

fun forEach :: "('a \<Rightarrow> nat \<Rightarrow> error + unit) \<Rightarrow> nat \<Rightarrow> 'a list \<Rightarrow> error + unit" where
  "forEach f i [] = Inr ()"
| "forEach f i (x # xs) = thenE (f x i) (\<lambda>_. forEach f (Suc i) xs)"

definition forEach_field :: "'a list option \<Rightarrow> ('a \<Rightarrow> nat \<Rightarrow> error + unit) \<Rightarrow> error + unit" where
  "forEach_field xs f = (case xs of None \<Rightarrow> Inl TypeError | Some ys \<Rightarrow> forEach f 0 ys)"

definition validateArgs :: "VpcArgs \<Rightarrow> error + unit" where
  "validateArgs args =
     (if falsy (cidrBlock args) then Inl (Error ''cidrBlock is required'')
      else if availabilityZones args = None \<or> availabilityZones args = Some []
      then Inl (Error ''availabilityZones must be provided and non-empty'')
      else if publicSubnetCidrs args = None \<or>
          map_option length (publicSubnetCidrs args) \<noteq> map_option length (availabilityZones args)
      then Inl (Error
        ''publicSubnetCidrs must be provided and match the number of availability zones'')
      else if privateSubnetCidrs args = None \<or>
          map_option length (privateSubnetCidrs args) \<noteq> map_option length (availabilityZones args)
      then Inl (Error
        ''privateSubnetCidrs must be provided and match the number of availability zones'')
      else if falsy (environment args) then Inl (Error ''environment is required'')
      else if falsy (project args) then Inl (Error ''project is required'')
      else
        thenE (validateCidrBlock (str (cidrBlock args)) ''VPC CIDR'') (\<lambda>_.
        thenE (forEach_field (publicSubnetCidrs args) (\<lambda>cidr index.
                 validateCidrBlock cidr (''Public subnet '' @ string_of_nat index @ '' CIDR''))) (\<lambda>_.
        forEach_field (privateSubnetCidrs args) (\<lambda>cidr index.
                 validateCidrBlock cidr (''Private subnet '' @ string_of_nat index @ '' CIDR'')))))"

section \<open>Declared resources and the provisioning engine\<close>

text \<open>
  \<^verbatim>\<open>new R(name, props, {parent: this})\<close> declares a resource to the provisioning engine and
  returns a handle. The engine's state is the list of declarations made so far, and a
  handle is the position of its declaration in that list. An output of a resource
  (\<^verbatim>\<open>vpc.id\<close>, \<^verbatim>\<open>flowLogGroup.arn\<close>, \<^verbatim>\<open>vpc.cidrBlock\<close>) is a value that the engine assigns:
  the model takes the engine's assignment \<open>eng\<close> (from a handle and an attribute to
  a value of any type \<open>'o\<close>) as a parameter, so that a property wired to \<^verbatim>\<open>vpc.id\<close> holds
  \<open>eng vpc AttrId\<close>. The apply phase of the engine is outside the component.
\<close>

datatype attr = AttrId | AttrArn | AttrCidrBlock

type_synonym 'o engine = "nat \<Rightarrow> attr \<Rightarrow> 'o"

text \<open>
  A tag set is an object literal from tag names to values; a value is the raw optional
  argument where the source writes \<^verbatim>\<open>Environment: args.environment\<close>.
\<close>

type_synonym tagset = "string \<rightharpoonup> string option"

text \<open>
  The properties of each resource class the constructor declares, in the order the
  source writes them; the last one is the tag set where the class has one. The component
  registers itself first, through \<^verbatim>\<open>super("proserve:aws:Vpc", name, args, opts)\<close>.
\<close>

datatype 'o route = GatewayRoute string 'o | NatGatewayRoute string 'o

datatype egress = Egress string int int "string list"

datatype 'o statement = Statement string "string list" 'o

datatype 'o policy = PolicyDocument string "'o statement list"

datatype principal = Service string

datatype 'o resource =
    ComponentResource string VpcArgs
  | Ec2Vpc "string option" bool bool string tagset
  | Ec2InternetGateway 'o tagset
  | Ec2Subnet 'o "string option" string bool tagset
  | Ec2RouteTable 'o "'o route list option" tagset
  | Ec2RouteTableAssociation 'o 'o
  | Ec2Eip string tagset
  | Ec2NatGateway 'o 'o tagset
  | Ec2DefaultSecurityGroup 'o "egress list" tagset
  | CloudwatchLogGroup string number tagset
  | IamRole principal tagset
  | IamRolePolicy 'o "'o policy"
  | Ec2FlowLog 'o string 'o 'o tagset

datatype 'o decl = Decl (decl_name: string) (decl_parent: "nat option") (decl_resource: "'o resource")

record 'o outputs =
  vpcId :: 'o
  vpcCidr :: 'o
  publicSubnetIds :: "'o list"
  privateSubnetIds :: "'o list"
  publicRouteTableId :: 'o
  privateRouteTableIds :: "'o list"
  natGatewayIds :: "'o list"
  internetGatewayId :: 'o
  flowLogId :: "'o option"

text \<open>
  A step of the constructor: it may throw, and it extends the list of declarations.
\<close>

type_synonym ('o, 'a) build = "'o decl list \<Rightarrow> (error + 'a) \<times> 'o decl list"

definition return :: "'a \<Rightarrow> ('o, 'a) build" where
  "return x st = (Inr x, st)"

definition throw :: "error \<Rightarrow> ('o, 'a) build" where
  "throw e st = (Inl e, st)"

definition lift :: "error + 'a \<Rightarrow> ('o, 'a) build" where
  "lift r st = (r, st)"

definition andThen :: "('o, 'a) build \<Rightarrow> ('a \<Rightarrow> ('o, 'b) build) \<Rightarrow> ('o, 'b) build" where
  "andThen m k st = (case m st of (Inl e, st') \<Rightarrow> (Inl e, st') | (Inr x, st') \<Rightarrow> k x st')"

definition new :: "string \<Rightarrow> nat option \<Rightarrow> 'o resource \<Rightarrow> ('o, nat) build" where
  "new nm parent r st = (Inr (length st), st @ [Decl nm parent r])"

text \<open>
  \<^verbatim>\<open>xs.map((x, index) => new R(name, props, {parent: this}))\<close>: the callback \<open>cb\<close> computes
  the name and the properties of one resource (and throws where the source reads a
  property of \<^verbatim>\<open>undefined\<close>), and the resource is declared at once.
\<close>

fun mapi_new :: "('a \<Rightarrow> nat \<Rightarrow> error + string \<times> 'o resource) \<Rightarrow> nat option \<Rightarrow> nat \<Rightarrow> 'a list
    \<Rightarrow> ('o, nat list) build" where
  "mapi_new cb parent i [] = return []"
| "mapi_new cb parent i (x # xs) =
     andThen (lift (cb x i)) (\<lambda>(nm, r).
     andThen (new nm parent r) (\<lambda>h.
     andThen (mapi_new cb parent (Suc i) xs) (\<lambda>hs.
     return (h # hs))))"

text \<open>
  The same for an array that is a field of the arguments (\<^verbatim>\<open>args.availabilityZones.map\<close>):
  a missing field throws. \<open>index_field\<close> is \<^verbatim>\<open>args.publicSubnetCidrs[index]\<close>, and \<open>elem\<close> is
  \<^verbatim>\<open>natEips[index]!.id\<close> up to the attribute: the element has to be there.
\<close>

definition map_field :: "'a list option \<Rightarrow> nat option \<Rightarrow> ('a \<Rightarrow> nat \<Rightarrow> error + string \<times> 'o resource)
    \<Rightarrow> ('o, nat list) build" where
  "map_field xs parent cb = (case xs of None \<Rightarrow> throw TypeError | Some ys \<Rightarrow> mapi_new cb parent 0 ys)"

definition index_field :: "'a list option \<Rightarrow> nat \<Rightarrow> error + 'a option" where
  "index_field xs i = (case xs of None \<Rightarrow> Inl TypeError | Some ys \<Rightarrow> Inr (at ys i))"

definition elem :: "nat list \<Rightarrow> nat \<Rightarrow> error + nat" where
  "elem hs i = (case at hs i of None \<Rightarrow> Inl TypeError | Some h \<Rightarrow> Inr h)"

text \<open>
  \<^verbatim>\<open>args.instanceTenancy || "default"\<close> and \<^verbatim>\<open>args.flowLogRetentionDays || 7\<close>: the default
  replaces every falsy value. \<open>spread\<close> is the object spread \<^verbatim>\<open>{...base, ...args.tags}\<close>.
\<close>

definition or_string :: "string option \<Rightarrow> string \<Rightarrow> string" where
  "or_string s d = (if falsy s then d else str s)"

definition or_number :: "number option \<Rightarrow> number \<Rightarrow> number" where
  "or_number x d = (case x of None \<Rightarrow> d | Some NaN \<Rightarrow> d | Some (Num n) \<Rightarrow> if n = 0 then d else Num n)"

definition spread :: "tagset \<Rightarrow> (string \<rightharpoonup> string) option \<Rightarrow> tagset" where
  "spread base extra = (case extra of None \<Rightarrow> base | Some t \<Rightarrow> base ++ (\<lambda>k. map_option Some (t k)))"

text \<open>
  The constructor of \<^verbatim>\<open>Vpc\<close>. Its result is the bundle of outputs it assigns to its fields
  and passes to \<^verbatim>\<open>registerOutputs\<close>.
\<close>

definition Vpc :: "'o engine \<Rightarrow> string \<Rightarrow> VpcArgs \<Rightarrow> ('o, 'o outputs) build" where
  "Vpc eng name args =
    andThen (new name None (ComponentResource ''proserve:aws:Vpc'' args)) (\<lambda>self.
    andThen (lift (validateArgs args)) (\<lambda>_.
    andThen (new (name @ ''-vpc'') (Some self)
      (Ec2Vpc (cidrBlock args) True True (or_string (instanceTenancy args) ''default'')
        (spread [''Name'' \<mapsto> Some (name @ ''-vpc''), ''Environment'' \<mapsto> environment args,
                 ''Project'' \<mapsto> project args, ''ManagedBy'' \<mapsto> Some ''pulumi''] (tags args)))) (\<lambda>vpc.
    andThen (new (name @ ''-igw'') (Some self)
      (Ec2InternetGateway (eng vpc AttrId)
        [''Name'' \<mapsto> Some (name @ ''-igw''), ''Environment'' \<mapsto> environment args,
         ''Project'' \<mapsto> project args, ''ManagedBy'' \<mapsto> Some ''pulumi''])) (\<lambda>internetGateway.
    andThen (map_field (availabilityZones args) (Some self) (\<lambda>az index.
      thenE (index_field (publicSubnetCidrs args) index) (\<lambda>cidr.
      Inr (name @ ''-public-'' @ az,
        Ec2Subnet (eng vpc AttrId) cidr az True
          [''Name'' \<mapsto> Some (name @ ''-public-'' @ az), ''Environment'' \<mapsto> environment args,
           ''Project'' \<mapsto> project args, ''Type'' \<mapsto> Some ''public'',
           ''ManagedBy'' \<mapsto> Some ''pulumi''])))) (\<lambda>publicSubnets.
    andThen (map_field (availabilityZones args) (Some self) (\<lambda>az index.
      thenE (index_field (privateSubnetCidrs args) index) (\<lambda>cidr.
      Inr (name @ ''-private-'' @ az,
        Ec2Subnet (eng vpc AttrId) cidr az False
          [''Name'' \<mapsto> Some (name @ ''-private-'' @ az), ''Environment'' \<mapsto> environment args,
           ''Project'' \<mapsto> project args, ''Type'' \<mapsto> Some ''private'',
           ''ManagedBy'' \<mapsto> Some ''pulumi''])))) (\<lambda>privateSubnets.
    andThen (new (name @ ''-public-rt'') (Some self)
      (Ec2RouteTable (eng vpc AttrId)
        (Some [GatewayRoute ''0.0.0.0/0'' (eng internetGateway AttrId)])
        [''Name'' \<mapsto> Some (name @ ''-public-rt''), ''Environment'' \<mapsto> environment args,
         ''Project'' \<mapsto> project args, ''Type'' \<mapsto> Some ''public'',
         ''ManagedBy'' \<mapsto> Some ''pulumi''])) (\<lambda>publicRouteTable.
    andThen (mapi_new (\<lambda>subnet index.
      Inr (name @ ''-public-rta-'' @ string_of_nat index,
        Ec2RouteTableAssociation (eng subnet AttrId) (eng publicRouteTable AttrId)))
      (Some self) 0 publicSubnets) (\<lambda>_.
    andThen
      (if enableNatGateway args \<noteq> Some False then
        andThen (map_field (availabilityZones args) (Some self) (\<lambda>az index.
          Inr (name @ ''-nat-eip-'' @ az,
            Ec2Eip ''vpc''
              [''Name'' \<mapsto> Some (name @ ''-nat-eip-'' @ az), ''Environment'' \<mapsto> environment args,
               ''Project'' \<mapsto> project args, ''ManagedBy'' \<mapsto> Some ''pulumi'']))) (\<lambda>natEips.
        andThen (map_field (availabilityZones args) (Some self) (\<lambda>az index.
          thenE (elem natEips index) (\<lambda>eip.
          thenE (elem publicSubnets index) (\<lambda>subnet.
          Inr (name @ ''-nat-'' @ az,
            Ec2NatGateway (eng eip AttrId) (eng subnet AttrId)
              [''Name'' \<mapsto> Some (name @ ''-nat-'' @ az), ''Environment'' \<mapsto> environment args,
               ''Project'' \<mapsto> project args, ''ManagedBy'' \<mapsto> Some ''pulumi'']))))) (\<lambda>natGateways.
        andThen (map_field (availabilityZones args) (Some self) (\<lambda>az index.
          thenE (elem natGateways index) (\<lambda>natGateway.
          Inr (name @ ''-private-rt-'' @ az,
            Ec2RouteTable (eng vpc AttrId)
              (Some [NatGatewayRoute ''0.0.0.0/0'' (eng natGateway AttrId)])
              [''Name'' \<mapsto> Some (name @ ''-private-rt-'' @ az), ''Environment'' \<mapsto> environment args,
               ''Project'' \<mapsto> project args, ''Type'' \<mapsto> Some ''private'',
               ''ManagedBy'' \<mapsto> Some ''pulumi''])))) (\<lambda>privateRouteTables.
        return (natGateways, privateRouteTables))))
      else
        andThen (map_field (availabilityZones args) (Some self) (\<lambda>az index.
          Inr (name @ ''-private-rt-'' @ az,
            Ec2RouteTable (eng vpc AttrId) None
              [''Name'' \<mapsto> Some (name @ ''-private-rt-'' @ az), ''Environment'' \<mapsto> environment args,
               ''Project'' \<mapsto> project args, ''Type'' \<mapsto> Some ''private'',
               ''ManagedBy'' \<mapsto> Some ''pulumi'']))) (\<lambda>privateRouteTables.
        return ([], privateRouteTables))) (\<lambda>(natGateways, privateRouteTables).
    andThen (mapi_new (\<lambda>subnet index.
      thenE (elem privateRouteTables index) (\<lambda>routeTable.
      Inr (name @ ''-private-rta-'' @ string_of_nat index,
        Ec2RouteTableAssociation (eng subnet AttrId) (eng routeTable AttrId))))
      (Some self) 0 privateSubnets) (\<lambda>_.
    andThen (new (name @ ''-default-sg'') (Some self)
      (Ec2DefaultSecurityGroup (eng vpc AttrId) [Egress ''-1'' 0 0 [''0.0.0.0/0'']]
        [''Name'' \<mapsto> Some (name @ ''-default-sg''), ''Environment'' \<mapsto> environment args,
         ''Project'' \<mapsto> project args, ''ManagedBy'' \<mapsto> Some ''pulumi''])) (\<lambda>_.
    andThen
      (if enableFlowLogs args \<noteq> Some False then
        andThen (new (name @ ''-flow-logs'') (Some self)
          (CloudwatchLogGroup (''/aws/vpc/flow-logs/'' @ name)
            (or_number (flowLogRetentionDays args) (Num 7))
            [''Environment'' \<mapsto> environment args, ''Project'' \<mapsto> project args,
             ''ManagedBy'' \<mapsto> Some ''pulumi''])) (\<lambda>flowLogGroup.
        andThen (new (name @ ''-flow-log-role'') (Some self)
          (IamRole (Service ''vpc-flow-logs.amazonaws.com'')
            [''Environment'' \<mapsto> environment args, ''Project'' \<mapsto> project args,
             ''ManagedBy'' \<mapsto> Some ''pulumi''])) (\<lambda>flowLogRole.
        andThen (new (name @ ''-flow-log-policy'') (Some self)
          (IamRolePolicy (eng flowLogRole AttrId)
            (PolicyDocument ''2012-10-17''
              [Statement ''Allow''
                [''logs:CreateLogGroup'', ''logs:CreateLogStream'', ''logs:PutLogEvents'',
                 ''logs:DescribeLogGroups'', ''logs:DescribeLogStreams'']
                (eng flowLogGroup AttrArn)]))) (\<lambda>_.
        andThen (new (name @ ''-flow-log'') (Some self)
          (Ec2FlowLog (eng vpc AttrId) ''ALL'' (eng flowLogGroup AttrArn) (eng flowLogRole AttrArn)
            [''Name'' \<mapsto> Some (name @ ''-flow-log''), ''Environment'' \<mapsto> environment args,
             ''Project'' \<mapsto> project args, ''ManagedBy'' \<mapsto> Some ''pulumi''])) (\<lambda>flowLog.
        return (Some flowLog)))))
      else return None) (\<lambda>flowLog.
    return \<lparr>
      vpcId = eng vpc AttrId,
      vpcCidr = eng vpc AttrCidrBlock,
      publicSubnetIds = map (\<lambda>s. eng s AttrId) publicSubnets,
      privateSubnetIds = map (\<lambda>s. eng s AttrId) privateSubnets,
      publicRouteTableId = eng publicRouteTable AttrId,
      privateRouteTableIds = map (\<lambda>rt. eng rt AttrId) privateRouteTables,
      natGatewayIds = map (\<lambda>ng. eng ng AttrId) natGateways,
      internetGatewayId = eng internetGateway AttrId,
      flowLogId = map_option (\<lambda>f. eng f AttrId) flowLog
    \<rparr>))))))))))))"

section \<open>Notions used to state the properties\<close>

subsection \<open>Validation\<close>

text \<open>
  The address syntax as the specification words it: four dot-separated octets, each
  between 0 and 255, then a slash and a prefix length between 8 and 30. An octet is read
  as a decimal numeral of one to three digits, a prefix length as one of one or two
  digits; leading zeros are digits like any other.
\<close>

definition digits :: "string \<Rightarrow> bool" where
  "digits x = (\<forall>c\<in>set x. is_digit c)"

definition spec_octet :: "string \<Rightarrow> bool" where
  "spec_octet x = (x \<noteq> [] \<and> length x \<le> 3 \<and> digits x \<and> dec x \<le> 255)"

definition spec_prefix_length :: "string \<Rightarrow> bool" where
  "spec_prefix_length p = (p \<noteq> [] \<and> length p \<le> 2 \<and> digits p \<and> 8 \<le> dec p \<and> dec p \<le> 30)"

definition spec_cidr :: "string \<Rightarrow> bool" where
  "spec_cidr s = (\<exists>a b c d p. s = a @ ''.'' @ b @ ''.'' @ c @ ''.'' @ d @ ''/'' @ p \<and>
      spec_octet a \<and> spec_octet b \<and> spec_octet c \<and> spec_octet d \<and> spec_prefix_length p)"

text \<open>
  The constraints of the specification in their fixed order, each with the name its
  message starts with and whether the configuration violates it.
\<close>

definition present :: "string option \<Rightarrow> bool" where
  "present s = (\<exists>t. s = Some t \<and> t \<noteq> [])"

definition the_list :: "'a list option \<Rightarrow> 'a list" where
  "the_list xs = (case xs of None \<Rightarrow> [] | Some ys \<Rightarrow> ys)"

definition constraints :: "VpcArgs \<Rightarrow> (string \<times> bool) list" where
  "constraints args =
     [(''cidrBlock'', \<not> present (cidrBlock args)),
      (''availabilityZones'', availabilityZones args = None \<or> availabilityZones args = Some []),
      (''publicSubnetCidrs'', publicSubnetCidrs args = None \<or>
          length (the_list (publicSubnetCidrs args)) \<noteq> length (the_list (availabilityZones args))),
      (''privateSubnetCidrs'', privateSubnetCidrs args = None \<or>
          length (the_list (privateSubnetCidrs args)) \<noteq> length (the_list (availabilityZones args))),
      (''environment'', \<not> present (environment args)),
      (''project'', \<not> present (project args)),
      (''VPC CIDR'', \<not> spec_cidr (str (cidrBlock args)))] @
     map (\<lambda>(i, c). (''Public subnet '' @ string_of_nat i @ '' CIDR'', \<not> spec_cidr c))
       (enumerate 0 (the_list (publicSubnetCidrs args))) @
     map (\<lambda>(i, c). (''Private subnet '' @ string_of_nat i @ '' CIDR'', \<not> spec_cidr c))
       (enumerate 0 (the_list (privateSubnetCidrs args)))"

text \<open>The language of a regular expression, to reason about the matcher.\<close>

fun pow :: "string set \<Rightarrow> nat \<Rightarrow> string set" where
  "pow L 0 = {[]}"
| "pow L (Suc k) = {u @ v | u v. u \<in> L \<and> v \<in> pow L k}"

fun lang :: "regex \<Rightarrow> string set" where
  "lang Digit = {[c] | c. is_digit c}"
| "lang (Lit a) = {[a]}"
| "lang (Cat r1 r2) = {u @ v | u v. u \<in> lang r1 \<and> v \<in> lang r2}"
| "lang (Rep m n r) = {u. \<exists>k. m \<le> k \<and> k \<le> n \<and> u \<in> pow (lang r) k}"

definition dig :: "nat \<Rightarrow> string \<Rightarrow> bool" where
  "dig n x = (1 \<le> length x \<and> length x \<le> n \<and> digits x)"

subsection \<open>The declared graph\<close>

text \<open>The class of a declaration, its tag set (empty for a class without tags).\<close>

datatype kind = KComponent | KVpc | KInternetGateway | KSubnet | KRouteTable
  | KRouteTableAssociation | KEip | KNatGateway | KDefaultSecurityGroup
  | KLogGroup | KRole | KRolePolicy | KFlowLog

fun kind_of :: "'o resource \<Rightarrow> kind" where
  "kind_of (ComponentResource t a) = KComponent"
| "kind_of (Ec2Vpc c h s t tg) = KVpc"
| "kind_of (Ec2InternetGateway v tg) = KInternetGateway"
| "kind_of (Ec2Subnet v c z m tg) = KSubnet"
| "kind_of (Ec2RouteTable v rs tg) = KRouteTable"
| "kind_of (Ec2RouteTableAssociation s t) = KRouteTableAssociation"
| "kind_of (Ec2Eip d tg) = KEip"
| "kind_of (Ec2NatGateway a s tg) = KNatGateway"
| "kind_of (Ec2DefaultSecurityGroup v e tg) = KDefaultSecurityGroup"
| "kind_of (CloudwatchLogGroup n d tg) = KLogGroup"
| "kind_of (IamRole p tg) = KRole"
| "kind_of (IamRolePolicy r p) = KRolePolicy"
| "kind_of (Ec2FlowLog v t d r tg) = KFlowLog"

definition of_kind :: "kind \<Rightarrow> 'o decl list \<Rightarrow> 'o decl list" where
  "of_kind k ds = filter (\<lambda>d. kind_of (decl_resource d) = k) ds"

fun resource_tags :: "'o resource \<Rightarrow> tagset" where
  "resource_tags (ComponentResource t a) = Map.empty"
| "resource_tags (Ec2Vpc c h s t tg) = tg"
| "resource_tags (Ec2InternetGateway v tg) = tg"
| "resource_tags (Ec2Subnet v c z m tg) = tg"
| "resource_tags (Ec2RouteTable v rs tg) = tg"
| "resource_tags (Ec2RouteTableAssociation s t) = Map.empty"
| "resource_tags (Ec2Eip d tg) = tg"
| "resource_tags (Ec2NatGateway a s tg) = tg"
| "resource_tags (Ec2DefaultSecurityGroup v e tg) = tg"
| "resource_tags (CloudwatchLogGroup n d tg) = tg"
| "resource_tags (IamRole p tg) = tg"
| "resource_tags (IamRolePolicy r p) = Map.empty"
| "resource_tags (Ec2FlowLog v t d r tg) = tg"

fun routes_of :: "'o resource \<Rightarrow> 'o route list option" where
  "routes_of (Ec2RouteTable v rs tg) = rs"
| "routes_of r = None"

text \<open>
  A declaration carries standard tags only: its tags are among \<open>Name\<close> (its own name),
  \<open>Environment\<close>, \<open>Project\<close> and \<open>ManagedBy\<close> with their standard values, and the
  visibility tag \<open>Type\<close> (public or private). \<open>extra_tag\<close> reads a tag of the caller.
\<close>

definition standard_only :: "VpcArgs \<Rightarrow> 'o decl \<Rightarrow> bool" where
  "standard_only args d =
     (\<exists>ty. (ty = ''public'' \<or> ty = ''private'') \<and>
        resource_tags (decl_resource d) \<subseteq>\<^sub>m
          [''Name'' \<mapsto> Some (decl_name d), ''Environment'' \<mapsto> environment args,
           ''Project'' \<mapsto> project args, ''ManagedBy'' \<mapsto> Some ''pulumi'', ''Type'' \<mapsto> Some ty])"

definition extra_tag :: "VpcArgs \<Rightarrow> string \<Rightarrow> string option" where
  "extra_tag args k = (case tags args of None \<Rightarrow> None | Some t \<Rightarrow> t k)"

text \<open>Renaming the engine-assigned values of an output bundle.\<close>

definition map_outputs :: "('a \<Rightarrow> 'b) \<Rightarrow> 'a outputs \<Rightarrow> 'b outputs" where
  "map_outputs f out = \<lparr>
      vpcId = f (vpcId out),
      vpcCidr = f (vpcCidr out),
      publicSubnetIds = map f (publicSubnetIds out),
      privateSubnetIds = map f (privateSubnetIds out),
      publicRouteTableId = f (publicRouteTableId out),
      privateRouteTableIds = map f (privateRouteTableIds out),
      natGatewayIds = map f (natGatewayIds out),
      internetGatewayId = f (internetGatewayId out),
      flowLogId = map_option f (flowLogId out) \<rparr>"

subsection \<open>Example configurations\<close>

text \<open>The configurations of the repository's basic and advanced examples.\<close>

definition basic_args :: VpcArgs where
  "basic_args = \<lparr>
     cidrBlock = Some ''10.0.0.0/16'',
     availabilityZones = Some [''us-east-1a'', ''us-east-1b''],
     publicSubnetCidrs = Some [''10.0.1.0/24'', ''10.0.2.0/24''],
     privateSubnetCidrs = Some [''10.0.11.0/24'', ''10.0.12.0/24''],
     environment = Some ''dev'',
     project = Some ''example-project'',
     instanceTenancy = None,
     enableNatGateway = Some True,
     enableFlowLogs = Some True,
     flowLogRetentionDays = Some (Num 7),
     tags = Some [''Owner'' \<mapsto> ''platform-team'', ''CostCenter'' \<mapsto> ''platform''] \<rparr>"

definition advanced_args :: VpcArgs where
  "advanced_args = \<lparr>
     cidrBlock = Some ''172.16.0.0/16'',
     availabilityZones = Some [''us-east-1a'', ''us-east-1b'', ''us-east-1c''],
     publicSubnetCidrs = Some [''172.16.1.0/24'', ''172.16.2.0/24'', ''172.16.3.0/24''],
     privateSubnetCidrs = Some [''172.16.11.0/24'', ''172.16.12.0/24'', ''172.16.13.0/24''],
     environment = Some ''production'',
     project = Some ''enterprise-platform'',
     instanceTenancy = Some ''default'',
     enableNatGateway = Some True,
     enableFlowLogs = Some True,
     flowLogRetentionDays = Some (Num 30),
     tags = Some [''Owner'' \<mapsto> ''platform-team'', ''CostCenter'' \<mapsto> ''platform'',
       ''Compliance'' \<mapsto> ''pci-dss'', ''Backup'' \<mapsto> ''daily'', ''Monitoring'' \<mapsto> ''enabled''] \<rparr>"

subsection \<open>A closed form of the constructor\<close>

text \<open>
  What the constructor declares for a valid configuration, written out resource by
  resource, with the handle of every resource as a position counted from the number \<open>n0\<close>
  of declarations made before the constructor ran. Lemma \<open>Vpc_closed_form\<close> proves that the
  constructor computes exactly this; the definitions serve the proofs only.
\<close>

definition nat_width :: "VpcArgs \<Rightarrow> nat \<Rightarrow> nat" where
  "nat_width args n = (if enableNatGateway args \<noteq> Some False then 2 * n else 0)"

definition component_decl :: "string \<Rightarrow> VpcArgs \<Rightarrow> 'o decl" where
  "component_decl name args = Decl name None (ComponentResource ''proserve:aws:Vpc'' args)"

definition vpc_decl :: "string \<Rightarrow> VpcArgs \<Rightarrow> nat \<Rightarrow> 'o decl" where
  "vpc_decl name args n0 = Decl (name @ ''-vpc'') (Some n0)
     (Ec2Vpc (cidrBlock args) True True (or_string (instanceTenancy args) ''default'')
       (spread [''Name'' \<mapsto> Some (name @ ''-vpc''), ''Environment'' \<mapsto> environment args,
                ''Project'' \<mapsto> project args, ''ManagedBy'' \<mapsto> Some ''pulumi''] (tags args)))"

definition igw_decl :: "'o engine \<Rightarrow> string \<Rightarrow> VpcArgs \<Rightarrow> nat \<Rightarrow> 'o decl" where
  "igw_decl eng name args n0 = Decl (name @ ''-igw'') (Some n0)
     (Ec2InternetGateway (eng (n0 + 1) AttrId)
       [''Name'' \<mapsto> Some (name @ ''-igw''), ''Environment'' \<mapsto> environment args,
        ''Project'' \<mapsto> project args, ''ManagedBy'' \<mapsto> Some ''pulumi''])"

definition public_subnet_decl ::
    "'o engine \<Rightarrow> string \<Rightarrow> VpcArgs \<Rightarrow> nat \<Rightarrow> string list \<Rightarrow> string list \<Rightarrow> nat \<Rightarrow> 'o decl" where
  "public_subnet_decl eng name args n0 zs ps j = Decl (name @ ''-public-'' @ zs ! j) (Some n0)
     (Ec2Subnet (eng (n0 + 1) AttrId) (at ps j) (zs ! j) True
       [''Name'' \<mapsto> Some (name @ ''-public-'' @ zs ! j), ''Environment'' \<mapsto> environment args,
        ''Project'' \<mapsto> project args, ''Type'' \<mapsto> Some ''public'',
        ''ManagedBy'' \<mapsto> Some ''pulumi''])"

definition private_subnet_decl ::
    "'o engine \<Rightarrow> string \<Rightarrow> VpcArgs \<Rightarrow> nat \<Rightarrow> string list \<Rightarrow> string list \<Rightarrow> nat \<Rightarrow> 'o decl" where
  "private_subnet_decl eng name args n0 zs qs j = Decl (name @ ''-private-'' @ zs ! j) (Some n0)
     (Ec2Subnet (eng (n0 + 1) AttrId) (at qs j) (zs ! j) False
       [''Name'' \<mapsto> Some (name @ ''-private-'' @ zs ! j), ''Environment'' \<mapsto> environment args,
        ''Project'' \<mapsto> project args, ''Type'' \<mapsto> Some ''private'',
        ''ManagedBy'' \<mapsto> Some ''pulumi''])"

definition public_rt_decl :: "'o engine \<Rightarrow> string \<Rightarrow> VpcArgs \<Rightarrow> nat \<Rightarrow> 'o decl" where
  "public_rt_decl eng name args n0 = Decl (name @ ''-public-rt'') (Some n0)
     (Ec2RouteTable (eng (n0 + 1) AttrId)
       (Some [GatewayRoute ''0.0.0.0/0'' (eng (n0 + 2) AttrId)])
       [''Name'' \<mapsto> Some (name @ ''-public-rt''), ''Environment'' \<mapsto> environment args,
        ''Project'' \<mapsto> project args, ''Type'' \<mapsto> Some ''public'',
        ''ManagedBy'' \<mapsto> Some ''pulumi''])"

definition public_rta_decl :: "'o engine \<Rightarrow> string \<Rightarrow> nat \<Rightarrow> nat \<Rightarrow> nat \<Rightarrow> 'o decl" where
  "public_rta_decl eng name n0 n j = Decl (name @ ''-public-rta-'' @ string_of_nat j) (Some n0)
     (Ec2RouteTableAssociation (eng (n0 + 3 + j) AttrId) (eng (n0 + 3 + 2 * n) AttrId))"

definition eip_decl :: "string \<Rightarrow> VpcArgs \<Rightarrow> nat \<Rightarrow> string list \<Rightarrow> nat \<Rightarrow> 'o decl" where
  "eip_decl name args n0 zs j = Decl (name @ ''-nat-eip-'' @ zs ! j) (Some n0)
     (Ec2Eip ''vpc''
       [''Name'' \<mapsto> Some (name @ ''-nat-eip-'' @ zs ! j), ''Environment'' \<mapsto> environment args,
        ''Project'' \<mapsto> project args, ''ManagedBy'' \<mapsto> Some ''pulumi''])"

definition nat_decl ::
    "'o engine \<Rightarrow> string \<Rightarrow> VpcArgs \<Rightarrow> nat \<Rightarrow> string list \<Rightarrow> nat \<Rightarrow> 'o decl" where
  "nat_decl eng name args n0 zs j = Decl (name @ ''-nat-'' @ zs ! j) (Some n0)
     (Ec2NatGateway (eng (n0 + 4 + 3 * length zs + j) AttrId) (eng (n0 + 3 + j) AttrId)
       [''Name'' \<mapsto> Some (name @ ''-nat-'' @ zs ! j), ''Environment'' \<mapsto> environment args,
        ''Project'' \<mapsto> project args, ''ManagedBy'' \<mapsto> Some ''pulumi''])"

definition private_rt_decl ::
    "'o engine \<Rightarrow> string \<Rightarrow> VpcArgs \<Rightarrow> nat \<Rightarrow> string list \<Rightarrow> nat \<Rightarrow> 'o decl" where
  "private_rt_decl eng name args n0 zs j = Decl (name @ ''-private-rt-'' @ zs ! j) (Some n0)
     (Ec2RouteTable (eng (n0 + 1) AttrId)
       (if enableNatGateway args \<noteq> Some False
        then Some [NatGatewayRoute ''0.0.0.0/0'' (eng (n0 + 4 + 4 * length zs + j) AttrId)]
        else None)
       [''Name'' \<mapsto> Some (name @ ''-private-rt-'' @ zs ! j), ''Environment'' \<mapsto> environment args,
        ''Project'' \<mapsto> project args, ''Type'' \<mapsto> Some ''private'',
        ''ManagedBy'' \<mapsto> Some ''pulumi''])"

definition private_rta_decl ::
    "'o engine \<Rightarrow> string \<Rightarrow> VpcArgs \<Rightarrow> nat \<Rightarrow> nat \<Rightarrow> nat \<Rightarrow> 'o decl" where
  "private_rta_decl eng name args n0 n j = Decl (name @ ''-private-rta-'' @ string_of_nat j) (Some n0)
     (Ec2RouteTableAssociation (eng (n0 + 3 + n + j) AttrId)
       (eng (n0 + 4 + 3 * n + nat_width args n + j) AttrId))"

definition sg_decl :: "'o engine \<Rightarrow> string \<Rightarrow> VpcArgs \<Rightarrow> nat \<Rightarrow> 'o decl" where
  "sg_decl eng name args n0 = Decl (name @ ''-default-sg'') (Some n0)
     (Ec2DefaultSecurityGroup (eng (n0 + 1) AttrId) [Egress ''-1'' 0 0 [''0.0.0.0/0'']]
       [''Name'' \<mapsto> Some (name @ ''-default-sg''), ''Environment'' \<mapsto> environment args,
        ''Project'' \<mapsto> project args, ''ManagedBy'' \<mapsto> Some ''pulumi''])"

definition log_group_decl :: "string \<Rightarrow> VpcArgs \<Rightarrow> nat \<Rightarrow> 'o decl" where
  "log_group_decl name args n0 = Decl (name @ ''-flow-logs'') (Some n0)
     (CloudwatchLogGroup (''/aws/vpc/flow-logs/'' @ name)
       (or_number (flowLogRetentionDays args) (Num 7))
       [''Environment'' \<mapsto> environment args, ''Project'' \<mapsto> project args,
        ''ManagedBy'' \<mapsto> Some ''pulumi''])"

definition role_decl :: "string \<Rightarrow> VpcArgs \<Rightarrow> nat \<Rightarrow> 'o decl" where
  "role_decl name args n0 = Decl (name @ ''-flow-log-role'') (Some n0)
     (IamRole (Service ''vpc-flow-logs.amazonaws.com'')
       [''Environment'' \<mapsto> environment args, ''Project'' \<mapsto> project args,
        ''ManagedBy'' \<mapsto> Some ''pulumi''])"

definition role_policy_decl :: "'o engine \<Rightarrow> string \<Rightarrow> VpcArgs \<Rightarrow> nat \<Rightarrow> nat \<Rightarrow> 'o decl" where
  "role_policy_decl eng name args n0 n = Decl (name @ ''-flow-log-policy'') (Some n0)
     (IamRolePolicy (eng (n0 + 6 + 5 * n + nat_width args n) AttrId)
       (PolicyDocument ''2012-10-17''
         [Statement ''Allow''
           [''logs:CreateLogGroup'', ''logs:CreateLogStream'', ''logs:PutLogEvents'',
            ''logs:DescribeLogGroups'', ''logs:DescribeLogStreams'']
           (eng (n0 + 5 + 5 * n + nat_width args n) AttrArn)]))"

definition flow_log_decl :: "'o engine \<Rightarrow> string \<Rightarrow> VpcArgs \<Rightarrow> nat \<Rightarrow> nat \<Rightarrow> 'o decl" where
  "flow_log_decl eng name args n0 n = Decl (name @ ''-flow-log'') (Some n0)
     (Ec2FlowLog (eng (n0 + 1) AttrId) ''ALL''
       (eng (n0 + 5 + 5 * n + nat_width args n) AttrArn)
       (eng (n0 + 6 + 5 * n + nat_width args n) AttrArn)
       [''Name'' \<mapsto> Some (name @ ''-flow-log''), ''Environment'' \<mapsto> environment args,
        ''Project'' \<mapsto> project args, ''ManagedBy'' \<mapsto> Some ''pulumi''])"

definition graph ::
    "'o engine \<Rightarrow> string \<Rightarrow> VpcArgs \<Rightarrow> nat \<Rightarrow> string list \<Rightarrow> string list \<Rightarrow> string list
      \<Rightarrow> 'o decl list" where
  "graph eng name args n0 zs ps qs =
     [component_decl name args, vpc_decl name args n0, igw_decl eng name args n0] @
     map (public_subnet_decl eng name args n0 zs ps) [0..<length zs] @
     map (private_subnet_decl eng name args n0 zs qs) [0..<length zs] @
     [public_rt_decl eng name args n0] @
     map (public_rta_decl eng name n0 (length zs)) [0..<length zs] @
     (if enableNatGateway args \<noteq> Some False
      then map (eip_decl name args n0 zs) [0..<length zs] @
           map (nat_decl eng name args n0 zs) [0..<length zs]
      else []) @
     map (private_rt_decl eng name args n0 zs) [0..<length zs] @
     map (private_rta_decl eng name args n0 (length zs)) [0..<length zs] @
     [sg_decl eng name args n0] @
     (if enableFlowLogs args \<noteq> Some False
      then [log_group_decl name args n0, role_decl name args n0,
            role_policy_decl eng name args n0 (length zs),
            flow_log_decl eng name args n0 (length zs)]
      else [])"

definition result_outputs :: "'o engine \<Rightarrow> VpcArgs \<Rightarrow> nat \<Rightarrow> nat \<Rightarrow> 'o outputs" where
  "result_outputs eng args n0 n = \<lparr>
      vpcId = eng (n0 + 1) AttrId,
      vpcCidr = eng (n0 + 1) AttrCidrBlock,
      publicSubnetIds = map (\<lambda>h. eng h AttrId) [n0 + 3..<n0 + 3 + n],
      privateSubnetIds = map (\<lambda>h. eng h AttrId) [n0 + 3 + n..<n0 + 3 + 2 * n],
      publicRouteTableId = eng (n0 + 3 + 2 * n) AttrId,
      privateRouteTableIds = map (\<lambda>h. eng h AttrId)
        [n0 + 4 + 3 * n + nat_width args n..<n0 + 4 + 4 * n + nat_width args n],
      natGatewayIds = (if enableNatGateway args \<noteq> Some False
        then map (\<lambda>h. eng h AttrId) [n0 + 4 + 4 * n..<n0 + 4 + 5 * n] else []),
      internetGatewayId = eng (n0 + 2) AttrId,
      flowLogId = (if enableFlowLogs args \<noteq> Some False
        then Some (eng (n0 + 8 + 5 * n + nat_width args n) AttrId) else None) \<rparr>"

section \<open>The matcher and the address validator\<close>

lemma rep_set:
  assumes f: "\<And>t. set (f t) = {v. \<exists>u\<in>L. t = u @ v}"
  shows "set (rep f m n s) = {v. \<exists>k u. m \<le> k \<and> k \<le> n \<and> u \<in> pow L k \<and> s = u @ v}"
proof (induction n arbitrary: m s)
  case 0
  show ?case by auto
next
  case (Suc n)
  show ?case (is "?A = ?B")
  proof (intro set_eqI iffI)
    fix v assume "v \<in> ?A"
    then consider (step) t where "t \<in> set (f s)" "v \<in> set (rep f (m - 1) n t)"
      | (stop) "m = 0" "v = s"
      by (auto split: if_splits)
    then show "v \<in> ?B"
    proof cases
      case step
      from step(1) f obtain a where a: "a \<in> L" "s = a @ t" by auto
      from step(2) Suc.IH obtain k w where
        kw: "m - 1 \<le> k" "k \<le> n" "w \<in> pow L k" "t = w @ v" by auto
      have "a @ w \<in> pow L (Suc k)" using a(1) kw(3) by auto
      moreover have "m \<le> Suc k" "Suc k \<le> Suc n" using kw by auto
      moreover have "s = (a @ w) @ v" using a kw by simp
      ultimately show ?thesis by blast
    next
      case stop
      have "[] \<in> pow L 0" by simp
      then show ?thesis using stop by force
    qed
  next
    fix v assume "v \<in> ?B"
    then obtain k u where ku: "m \<le> k" "k \<le> Suc n" "u \<in> pow L k" "s = u @ v" by auto
    show "v \<in> ?A"
    proof (cases k)
      case 0
      then show ?thesis using ku by auto
    next
      case (Suc k')
      then obtain a w where aw: "a \<in> L" "w \<in> pow L k'" "u = a @ w" using ku(3) by auto
      have "w @ v \<in> set (f s)" using f aw ku(4) by auto
      moreover have "m - 1 \<le> k'" "k' \<le> n" using ku(1,2) Suc by auto
      then have "v \<in> set (rep f (m - 1) n (w @ v))"
        unfolding Suc.IH [of "m - 1" "w @ v"] using aw(2) by blast
      ultimately show ?thesis by auto
    qed
  qed
qed

lemma rests_set: "set (rests r s) = {v. \<exists>u\<in>lang r. s = u @ v}"
proof (induction r arbitrary: s)
  case Digit
  show ?case by (cases s) auto
next
  case (Lit a)
  show ?case by (cases s) auto
next
  case (Cat r1 r2)
  show ?case
  proof (intro set_eqI iffI)
    fix v assume "v \<in> set (rests (Cat r1 r2) s)"
    then obtain t where t: "t \<in> set (rests r1 s)" "v \<in> set (rests r2 t)" by auto
    from t(1) obtain a where a: "a \<in> lang r1" "s = a @ t" unfolding Cat.IH by auto
    from t(2) obtain b where b: "b \<in> lang r2" "t = b @ v" unfolding Cat.IH by auto
    have "a @ b \<in> lang (Cat r1 r2)" using a(1) b(1) by auto
    moreover have "s = (a @ b) @ v" using a(2) b(2) by simp
    ultimately show "v \<in> {v. \<exists>u\<in>lang (Cat r1 r2). s = u @ v}" by blast
  next
    fix v assume "v \<in> {v. \<exists>u\<in>lang (Cat r1 r2). s = u @ v}"
    then obtain a b where ab: "a \<in> lang r1" "b \<in> lang r2" "s = (a @ b) @ v" by auto
    have "b @ v \<in> set (rests r1 s)" unfolding Cat.IH using ab(1,3) by auto
    moreover have "v \<in> set (rests r2 (b @ v))" unfolding Cat.IH using ab(2) by auto
    ultimately show "v \<in> set (rests (Cat r1 r2) s)" by auto
  qed
next
  case (Rep m n r)
  have "set (rests (Rep m n r) s) = {v. \<exists>k u. m \<le> k \<and> k \<le> n \<and> u \<in> pow (lang r) k \<and> s = u @ v}"
    unfolding rests.simps by (rule rep_set) (rule Rep.IH)
  also have "\<dots> = {v. \<exists>u\<in>lang (Rep m n r). s = u @ v}"
    unfolding lang.simps by blast
  finally show ?case .
qed

lemma test_lang: "test r s \<longleftrightarrow> s \<in> lang r"
  by (simp add: test_def rests_set)

lemma pow_Digit: "pow (lang Digit) k = {x. length x = k \<and> digits x}"
proof (induction k)
  case 0
  show ?case by (auto simp: digits_def)
next
  case (Suc k)
  show ?case
  proof (intro set_eqI iffI)
    fix x assume "x \<in> pow (lang Digit) (Suc k)"
    then show "x \<in> {x. length x = Suc k \<and> digits x}"
      using Suc.IH by (auto simp: digits_def)
  next
    fix x assume "x \<in> {x. length x = Suc k \<and> digits x}"
    then obtain c cs where "x = c # cs" "is_digit c" "length cs = k" "digits cs"
      by (cases x) (auto simp: digits_def)
    then have "[c] \<in> lang Digit" "cs \<in> pow (lang Digit) k" "x = [c] @ cs"
      using Suc.IH by auto
    then show "x \<in> pow (lang Digit) (Suc k)"
      unfolding pow.simps(2) mem_Collect_eq by blast
  qed
qed

lemma lang_Rep_Digit:
  "lang (Rep m n Digit) = {x. m \<le> length x \<and> length x \<le> n \<and> digits x}"
  unfolding lang.simps(4) pow_Digit by blast

lemma lang_dig: "lang (Rep 1 n Digit) = {x. dig n x}"
  unfolding lang_Rep_Digit dig_def by simp

lemma lang_Rep_exact: "lang (Rep 3 3 r) = pow (lang r) 3"
proof (intro set_eqI iffI)
  fix u assume "u \<in> lang (Rep 3 3 r)"
  then obtain k where k: "3 \<le> k" "k \<le> 3" "u \<in> pow (lang r) k"
    unfolding lang.simps(4) by blast
  from k(1,2) have "k = 3" by arith
  with k(3) show "u \<in> pow (lang r) 3" by simp
next
  fix u assume "u \<in> pow (lang r) 3"
  then have "(3::nat) \<le> 3 \<and> (3::nat) \<le> 3 \<and> u \<in> pow (lang r) 3" by simp
  then show "u \<in> lang (Rep 3 3 r)" unfolding lang.simps(4) by blast
qed

lemma pow_3: "pow L 3 = {u1 @ u2 @ u3 | u1 u2 u3. u1 \<in> L \<and> u2 \<in> L \<and> u3 \<in> L}"
proof -
  have "pow L 3 = pow L (Suc (Suc (Suc 0)))" by (simp add: eval_nat_numeral)
  also have "\<dots> = {u1 @ u2 @ u3 | u1 u2 u3. u1 \<in> L \<and> u2 \<in> L \<and> u3 \<in> L}"
    unfolding pow.simps by (intro set_eqI iffI; clarsimp; blast)
  finally show ?thesis .
qed

lemma lang_octet_dot: "lang (Cat (Rep 1 3 Digit) (Lit CHR ''.'')) = {a @ ''.'' | a. dig 3 a}"
  unfolding lang.simps(3) lang_dig lang.simps(2) by blast

lemma lang_cidrRegex:
  "s \<in> lang cidrRegex \<longleftrightarrow>
     (\<exists>a b c d p. s = a @ ''.'' @ b @ ''.'' @ c @ ''.'' @ d @ ''/'' @ p \<and>
        dig 3 a \<and> dig 3 b \<and> dig 3 c \<and> dig 3 d \<and> dig 2 p)"
proof
  assume "s \<in> lang cidrRegex"
  then obtain u v where uv: "s = u @ v" "u \<in> pow {a @ ''.'' | a. dig 3 a} 3"
      "v \<in> lang (Cat (Rep 1 3 Digit) (Cat (Lit CHR ''/'') (Rep 1 2 Digit)))"
    unfolding cidrRegex_def lang.simps(3) [of "Rep 3 3 _"] lang_Rep_exact lang_octet_dot by blast
  from uv(2) obtain a b c where abc: "u = (a @ ''.'') @ (b @ ''.'') @ (c @ ''.'')"
      "dig 3 a" "dig 3 b" "dig 3 c"
    unfolding pow_3 by blast
  from uv(3) obtain d p where dp: "v = d @ ''/'' @ p" "dig 3 d" "dig 2 p"
    unfolding lang.simps(3) lang_dig lang.simps(2) by blast
  have "s = a @ ''.'' @ b @ ''.'' @ c @ ''.'' @ d @ ''/'' @ p"
    using uv(1) abc(1) dp(1) by simp
  then show "\<exists>a b c d p. s = a @ ''.'' @ b @ ''.'' @ c @ ''.'' @ d @ ''/'' @ p \<and>
        dig 3 a \<and> dig 3 b \<and> dig 3 c \<and> dig 3 d \<and> dig 2 p"
    using abc dp by blast
next
  assume "\<exists>a b c d p. s = a @ ''.'' @ b @ ''.'' @ c @ ''.'' @ d @ ''/'' @ p \<and>
        dig 3 a \<and> dig 3 b \<and> dig 3 c \<and> dig 3 d \<and> dig 2 p"
  then obtain a b c d p where s: "s = a @ ''.'' @ b @ ''.'' @ c @ ''.'' @ d @ ''/'' @ p"
    and g: "dig 3 a" "dig 3 b" "dig 3 c" "dig 3 d" "dig 2 p" by blast
  have u: "(a @ ''.'') @ (b @ ''.'') @ (c @ ''.'') \<in> pow {a @ ''.'' | a. dig 3 a} 3"
    unfolding pow_3 using g by blast
  have v: "d @ ''/'' @ p \<in> lang (Cat (Rep 1 3 Digit) (Cat (Lit CHR ''/'') (Rep 1 2 Digit)))"
    unfolding lang.simps(3) lang_dig lang.simps(2) using g by blast
  have "s = ((a @ ''.'') @ (b @ ''.'') @ (c @ ''.'')) @ (d @ ''/'' @ p)" using s by simp
  then show "s \<in> lang cidrRegex"
    unfolding cidrRegex_def lang.simps(3) [of "Rep 3 3 _"] lang_Rep_exact lang_octet_dot
    using u v by blast
qed


lemma split_no_sep: "sep \<notin> set u \<Longrightarrow> split sep u = [u]"
  by (induction u) auto

lemma split_append: "sep \<notin> set u \<Longrightarrow> split sep (u @ sep # v) = u # split sep v"
  by (induction u) auto

lemma digits_no_sep: "digits x \<Longrightarrow> CHR ''.'' \<notin> set x \<and> CHR ''/'' \<notin> set x"
proof -
  assume d: "digits x"
  have "\<not> is_digit CHR ''.''" "\<not> is_digit CHR ''/''" by (simp_all add: is_digit_def)
  then show ?thesis using d unfolding digits_def by blast
qed

lemma digit_val_nonneg: "is_digit c \<Longrightarrow> 0 \<le> digit_val c"
  by (auto simp: is_digit_def digit_val_def)

lemma foldl_dec_nonneg:
  "digits x \<Longrightarrow> 0 \<le> acc \<Longrightarrow> 0 \<le> foldl (\<lambda>acc c. 10 * acc + digit_val c) acc x"
proof (induction x arbitrary: acc)
  case Nil
  then show ?case by simp
next
  case (Cons c cs)
  have "is_digit c" "digits cs" using Cons.prems(1) by (auto simp: digits_def)
  then have "0 \<le> 10 * acc + digit_val c" using Cons.prems(2) digit_val_nonneg [of c] by simp
  then show ?case using Cons.IH [OF \<open>digits cs\<close>] by simp
qed

lemma dec_nonneg: "digits x \<Longrightarrow> 0 \<le> dec x"
  unfolding dec_def by (rule foldl_dec_nonneg) simp_all

lemma Number_digits: "digits x \<Longrightarrow> Number x = Num (dec x)"
  by (simp add: Number_def digits_def list_all_iff)

lemma parseInt_digits: "digits p \<Longrightarrow> p \<noteq> [] \<Longrightarrow> parseInt (Some p) = Num (dec p)"
proof -
  assume d: "digits p" and ne: "p \<noteq> []"
  have tw: "takeWhile is_digit p = p" using d by (simp add: digits_def)
  obtain c cs where p: "p = c # cs" using ne by (cases p) auto
  have "parseInt (Some p) = (case takeWhile is_digit p of [] \<Rightarrow> NaN | ds \<Rightarrow> Num (dec ds))"
    by (simp add: parseInt_def)
  also have "\<dots> = (case p of [] \<Rightarrow> NaN | ds \<Rightarrow> Num (dec ds))" by (simp only: tw)
  also have "\<dots> = Num (dec p)" by (simp only: p list.case)
  finally show ?thesis .
qed

lemma octet_out_of_range: "digits x \<Longrightarrow>
    (lt (Number x) (Num 0) \<or> gt (Number x) (Num 255)) = (255 < dec x)"
  using dec_nonneg [of x] by (simp add: Number_digits lt_def gt_def)

lemma validateCidrBlock_no_match:
  "\<not> test cidrRegex s \<Longrightarrow>
     validateCidrBlock s nm = Inl (Error (nm @ '' must be a valid CIDR block (e.g., 10.0.0.0/16)''))"
  by (simp add: validateCidrBlock_def)

lemma validateCidrBlock_match:
  assumes s: "s = a @ ''.'' @ b @ ''.'' @ c @ ''.'' @ d @ ''/'' @ p"
    and g: "dig 3 a" "dig 3 b" "dig 3 c" "dig 3 d" "dig 2 p"
  shows "validateCidrBlock s nm =
     (if dec p < 8 \<or> 30 < dec p then Inl (Error (nm @ '' prefix must be between 8 and 30''))
      else if 255 < dec a \<or> 255 < dec b \<or> 255 < dec c \<or> 255 < dec d
      then Inl (Error (nm @ '' contains invalid IP address''))
      else Inr ())"
proof -
  have t: "test cidrRegex s" unfolding test_lang lang_cidrRegex using s g by blast
  have da: "digits a" and db: "digits b" and dc: "digits c" and dd: "digits d" and dp: "digits p"
    and pne: "p \<noteq> []"
    using g by (auto simp: dig_def)
  let ?ip = "a @ ''.'' @ b @ ''.'' @ c @ ''.'' @ d"
  have nos: "CHR ''/'' \<notin> set ?ip" using da db dc dd by (simp add: digits_no_sep)
  have "s = ?ip @ CHR ''/'' # p" using s by simp
  then have sp: "split CHR ''/'' s = [?ip, p]"
    using split_append [OF nos, of p] split_no_sep [of "CHR ''/''" p] dp
    by (simp add: digits_no_sep)
  have "split CHR ''.'' (c @ CHR ''.'' # d) = [c, d]"
    using split_append [of "CHR ''.''" c d] split_no_sep [of "CHR ''.''" d] dc dd
    by (simp add: digits_no_sep)
  then have "split CHR ''.'' (b @ CHR ''.'' # c @ CHR ''.'' # d) = [b, c, d]"
    using split_append [of "CHR ''.''" b "c @ CHR ''.'' # d"] db by (simp add: digits_no_sep)
  then have "split CHR ''.'' (a @ CHR ''.'' # b @ CHR ''.'' # c @ CHR ''.'' # d) = [a, b, c, d]"
    using split_append [of "CHR ''.''" a "b @ CHR ''.'' # c @ CHR ''.'' # d"] da
    by (simp add: digits_no_sep)
  then have ips: "split CHR ''.'' ?ip = [a, b, c, d]" by simp
  have pre: "parseInt (at [p] 0) = Num (dec p)" using parseInt_digits [OF dp pne] by (simp add: at_def)
  have cmp: "(lt (Num (dec p)) (Num 8) \<or> gt (Num (dec p)) (Num 30)) = (dec p < 8 \<or> 30 < dec p)"
    by (simp add: lt_def gt_def)
  have ex: "list_ex (\<lambda>part. lt part (Num 0) \<or> gt part (Num 255)) (map Number [a, b, c, d])
      = (255 < dec a \<or> 255 < dec b \<or> 255 < dec c \<or> 255 < dec d)"
    using octet_out_of_range [OF da] octet_out_of_range [OF db]
      octet_out_of_range [OF dc] octet_out_of_range [OF dd] by simp
  have "validateCidrBlock s nm =
      (if lt (Num (dec p)) (Num 8) \<or> gt (Num (dec p)) (Num 30)
       then Inl (Error (nm @ '' prefix must be between 8 and 30''))
       else if list_ex (\<lambda>part. lt part (Num 0) \<or> gt part (Num 255)) (map Number [a, b, c, d])
         then Inl (Error (nm @ '' contains invalid IP address''))
         else Inr ())"
    unfolding validateCidrBlock_def sp ips using t pre by (simp only: ips Let_def list.case if_False not_True_eq_False simp_thms)
  then show ?thesis unfolding cmp ex .
qed


lemma dig_octet: "spec_octet x \<longleftrightarrow> dig 3 x \<and> dec x \<le> 255"
  by (cases x) (auto simp: spec_octet_def dig_def)

lemma dig_prefix: "spec_prefix_length p \<longleftrightarrow> dig 2 p \<and> 8 \<le> dec p \<and> dec p \<le> 30"
  by (cases p) (auto simp: spec_prefix_length_def dig_def)

lemma validateCidrBlock_ok_iff: "validateCidrBlock s nm = Inr () \<longleftrightarrow> spec_cidr s"
proof
  assume ok: "validateCidrBlock s nm = Inr ()"
  have "test cidrRegex s"
  proof (rule ccontr)
    assume "\<not> test cidrRegex s"
    from validateCidrBlock_no_match [OF this, of nm] ok show False by simp
  qed
  then obtain a b c d p where s: "s = a @ ''.'' @ b @ ''.'' @ c @ ''.'' @ d @ ''/'' @ p"
    and g: "dig 3 a" "dig 3 b" "dig 3 c" "dig 3 d" "dig 2 p"
    unfolding test_lang lang_cidrRegex by blast
  from validateCidrBlock_match [OF s g, of nm] ok
  have "8 \<le> dec p \<and> dec p \<le> 30 \<and> dec a \<le> 255 \<and> dec b \<le> 255 \<and> dec c \<le> 255 \<and> dec d \<le> 255"
    by (auto split: if_splits)
  then show "spec_cidr s" unfolding spec_cidr_def dig_octet dig_prefix using s g by blast
next
  assume "spec_cidr s"
  then obtain a b c d p where s: "s = a @ ''.'' @ b @ ''.'' @ c @ ''.'' @ d @ ''/'' @ p"
    and g: "dig 3 a" "dig 3 b" "dig 3 c" "dig 3 d" "dig 2 p"
    and r: "dec a \<le> 255" "dec b \<le> 255" "dec c \<le> 255" "dec d \<le> 255" "8 \<le> dec p" "dec p \<le> 30"
    unfolding spec_cidr_def dig_octet dig_prefix by blast
  from validateCidrBlock_match [OF s g, of nm] r show "validateCidrBlock s nm = Inr ()" by simp
qed

lemma validateCidrBlock_error:
  "validateCidrBlock s nm \<noteq> Inr () \<Longrightarrow> \<exists>msg. validateCidrBlock s nm = Inl (Error msg) \<and> prefix nm msg"
proof (cases "test cidrRegex s")
  case False
  then show ?thesis by (simp add: validateCidrBlock_no_match)
next
  case True
  assume ne: "validateCidrBlock s nm \<noteq> Inr ()"
  from True obtain a b c d p where s: "s = a @ ''.'' @ b @ ''.'' @ c @ ''.'' @ d @ ''/'' @ p"
    and g: "dig 3 a" "dig 3 b" "dig 3 c" "dig 3 d" "dig 2 p"
    unfolding test_lang lang_cidrRegex by blast
  show ?thesis using ne unfolding validateCidrBlock_match [OF s g, of nm]
    by (simp split: if_splits)
qed

lemma cidr_examples:
  "validateCidrBlock ''10.0.0.0'' [] \<noteq> Inr ()"
  "validateCidrBlock ''10.0.0.0/31'' [] \<noteq> Inr ()"
  "validateCidrBlock ''10.0.0.0/7'' [] \<noteq> Inr ()"
  "validateCidrBlock ''999.0.0.0/16'' [] \<noteq> Inr ()"
  "validateCidrBlock ''10.0.0.0/16x'' [] \<noteq> Inr ()"
  "validateCidrBlock ''10.0.0.0/16'' [] = Inr ()"
  "validateCidrBlock ''172.16.0.0/12'' [] = Inr ()"
  by code_simp+

text \<open>
  Claim C6. The address validator accepts exactly the strings made of four dot-separated
  octets, each between 0 and 255, followed by a slash and a prefix length between 8 and 30,
  whatever the name it reports under; an octet is written with one to three decimal
  digits and a prefix length with one or two. It rejects \<open>10.0.0.0\<close>, \<open>10.0.0.0/31\<close>, \<open>10.0.0.0/7\<close>,
  \<open>999.0.0.0/16\<close> and \<open>10.0.0.0/16x\<close>, and accepts \<open>10.0.0.0/16\<close> and \<open>172.16.0.0/12\<close>.
\<close>

theorem validateCidrBlock_accepts_exactly:
  "(validateCidrBlock s nm = Inr ()) = spec_cidr s \<and>
   validateCidrBlock ''10.0.0.0'' nm \<noteq> Inr () \<and>
   validateCidrBlock ''10.0.0.0/31'' nm \<noteq> Inr () \<and>
   validateCidrBlock ''10.0.0.0/7'' nm \<noteq> Inr () \<and>
   validateCidrBlock ''999.0.0.0/16'' nm \<noteq> Inr () \<and>
   validateCidrBlock ''10.0.0.0/16x'' nm \<noteq> Inr () \<and>
   validateCidrBlock ''10.0.0.0/16'' nm = Inr () \<and>
   validateCidrBlock ''172.16.0.0/12'' nm = Inr ()"
proof -
  have any: "\<And>t. (validateCidrBlock t nm = Inr ()) = (validateCidrBlock t [] = Inr ())"
    by (simp only: validateCidrBlock_ok_iff)
  show ?thesis
    unfolding any using cidr_examples by (simp add: validateCidrBlock_ok_iff)
qed

theorem validateCidrBlock_accepts_exactly_witness:
  "validateCidrBlock ''172.16.0.0/12'' ''VPC CIDR'' = Inr () \<and> spec_cidr ''172.16.0.0/12'' \<and>
   validateCidrBlock ''999.0.0.0/16'' ''VPC CIDR''
     = Inl (Error ''VPC CIDR contains invalid IP address'') \<and>
   \<not> spec_cidr ''999.0.0.0/16''"
proof -
  have a: "validateCidrBlock ''172.16.0.0/12'' ''VPC CIDR'' = Inr ()" by code_simp
  have b: "validateCidrBlock ''999.0.0.0/16'' ''VPC CIDR''
      = Inl (Error ''VPC CIDR contains invalid IP address'')" by code_simp
  from validateCidrBlock_accepts_exactly [of "''172.16.0.0/12''" "''VPC CIDR''"] a
  have c: "spec_cidr ''172.16.0.0/12''" by simp
  from validateCidrBlock_accepts_exactly [of "''999.0.0.0/16''" "''VPC CIDR''"] b
  have d: "\<not> spec_cidr ''999.0.0.0/16''" by simp
  from a b c d show ?thesis by simp
qed

lemma find_append_case:
  "find P (xs @ ys) = (case find P xs of None \<Rightarrow> find P ys | Some x \<Rightarrow> Some x)"
  by (induction xs) auto


lemma forEach_constraints:
  "(case find snd (map (\<lambda>(i, c). (L i, \<not> spec_cidr c)) (enumerate k cs)) of
      None \<Rightarrow> forEach (\<lambda>c i. validateCidrBlock c (L i)) k cs = Inr ()
    | Some (field, _) \<Rightarrow>
        \<exists>msg. forEach (\<lambda>c i. validateCidrBlock c (L i)) k cs = Inl (Error msg) \<and> prefix field msg)"
proof (induction cs arbitrary: k)
  case Nil
  show ?case by simp
next
  case (Cons c cs)
  show ?case
  proof (cases "spec_cidr c")
    case True
    then have ok: "validateCidrBlock c (L k) = Inr ()" by (simp add: validateCidrBlock_ok_iff)
    have f: "forEach (\<lambda>c i. validateCidrBlock c (L i)) k (c # cs)
        = forEach (\<lambda>c i. validateCidrBlock c (L i)) (Suc k) cs"
      by (simp add: ok thenE_def)
    have g: "find snd (map (\<lambda>(i, c). (L i, \<not> spec_cidr c)) (enumerate k (c # cs)))
        = find snd (map (\<lambda>(i, c). (L i, \<not> spec_cidr c)) (enumerate (Suc k) cs))"
      using True by simp
    show ?thesis unfolding f g by (rule Cons.IH)
  next
    case False
    then have "validateCidrBlock c (L k) \<noteq> Inr ()" by (simp add: validateCidrBlock_ok_iff)
    then obtain msg where m: "validateCidrBlock c (L k) = Inl (Error msg)" "prefix (L k) msg"
      using validateCidrBlock_error by blast
    have f: "forEach (\<lambda>c i. validateCidrBlock c (L i)) k (c # cs) = Inl (Error msg)"
      by (simp add: m thenE_def)
    have g: "find snd (map (\<lambda>(i, c). (L i, \<not> spec_cidr c)) (enumerate k (c # cs)))
        = Some (L k, True)"
      using False by simp
    show ?thesis unfolding f g using m(2) by simp
  qed
qed

lemma not_present_falsy: "(\<not> present s) = falsy s"
  by (cases s) (auto simp: present_def falsy_def)

lemma validateArgs_cidr_stage:
  assumes c: "\<not> falsy (cidrBlock args)"
    and z: "availabilityZones args = Some zs" "zs \<noteq> []"
    and p: "publicSubnetCidrs args = Some ps" "length ps = length zs"
    and q: "privateSubnetCidrs args = Some qs" "length qs = length zs"
    and e: "\<not> falsy (environment args)" "\<not> falsy (project args)"
  shows "(case find snd (constraints args) of
      None \<Rightarrow> validateArgs args = Inr ()
    | Some (field, _) \<Rightarrow> \<exists>msg. validateArgs args = Inl (Error msg) \<and> prefix field msg)"
proof -
  let ?P = "\<lambda>c i. validateCidrBlock c (''Public subnet '' @ string_of_nat i @ '' CIDR'')"
  let ?Q = "\<lambda>c i. validateCidrBlock c (''Private subnet '' @ string_of_nat i @ '' CIDR'')"
  let ?cp = "map (\<lambda>(i, c). (''Public subnet '' @ string_of_nat i @ '' CIDR'', \<not> spec_cidr c)) (enumerate 0 ps)"
  let ?cq = "map (\<lambda>(i, c). (''Private subnet '' @ string_of_nat i @ '' CIDR'', \<not> spec_cidr c)) (enumerate 0 qs)"
  have va: "validateArgs args =
      thenE (validateCidrBlock (str (cidrBlock args)) ''VPC CIDR'') (\<lambda>_.
      thenE (forEach ?P 0 ps) (\<lambda>_. forEach ?Q 0 qs))"
    using c z p q e by (simp add: validateArgs_def forEach_field_def)
  have cs: "find snd (constraints args) =
      find snd ((''VPC CIDR'', \<not> spec_cidr (str (cidrBlock args))) # ?cp @ ?cq)"
    using c z p q e by (simp add: constraints_def not_present_falsy the_list_def)
  show ?thesis
  proof (cases "spec_cidr (str (cidrBlock args))")
    case False
    then have "validateCidrBlock (str (cidrBlock args)) ''VPC CIDR'' \<noteq> Inr ()"
      by (simp add: validateCidrBlock_ok_iff)
    then obtain msg where m: "validateCidrBlock (str (cidrBlock args)) ''VPC CIDR'' = Inl (Error msg)"
        "prefix ''VPC CIDR'' msg"
      using validateCidrBlock_error by blast
    have va': "validateArgs args = Inl (Error msg)" unfolding va m(1) by (simp add: thenE_def)
    have cs': "find snd (constraints args) = Some (''VPC CIDR'', True)"
      unfolding cs using False by simp
    show ?thesis unfolding va' cs' using m(2) by simp
  next
    case True
    then have ok: "validateCidrBlock (str (cidrBlock args)) ''VPC CIDR'' = Inr ()"
      by (simp add: validateCidrBlock_ok_iff)
    have va': "validateArgs args = thenE (forEach ?P 0 ps) (\<lambda>_. forEach ?Q 0 qs)"
      unfolding va ok by (simp add: thenE_def)
    have "find snd ((''VPC CIDR'', \<not> spec_cidr (str (cidrBlock args))) # ?cp @ ?cq)
        = find snd (?cp @ ?cq)"
      using True by simp
    then have cs': "find snd (constraints args) =
        (case find snd ?cp of None \<Rightarrow> find snd ?cq | Some x \<Rightarrow> Some x)"
      unfolding cs by (simp only: find_append_case)
    note fp = forEach_constraints [of "\<lambda>i. ''Public subnet '' @ string_of_nat i @ '' CIDR''" 0 ps]
    note fq = forEach_constraints [of "\<lambda>i. ''Private subnet '' @ string_of_nat i @ '' CIDR''" 0 qs]
    show ?thesis
    proof (cases "find snd ?cp")
      case (Some x)
      obtain field b where x: "x = (field, b)" by (cases x)
      from fp obtain msg where m: "forEach ?P 0 ps = Inl (Error msg)" "prefix field msg"
        unfolding Some x by auto
      have va'': "validateArgs args = Inl (Error msg)" unfolding va' m(1) by (simp add: thenE_def)
      have cs'': "find snd (constraints args) = Some (field, b)" unfolding cs' Some x by simp
      show ?thesis unfolding va'' cs'' using m(2) by simp
    next
      case None
      from fp have okp: "forEach ?P 0 ps = Inr ()" unfolding None by simp
      have va'': "validateArgs args = forEach ?Q 0 qs" unfolding va' okp by (simp add: thenE_def)
      have cs'': "find snd (constraints args) = find snd ?cq" unfolding cs' None by simp
      show ?thesis unfolding va'' cs'' by (rule fq)
    qed
  qed
qed

text \<open>
  Claim C5. For every raw configuration the validator either returns, or throws for the
  first violated constraint of the fixed order (address block present; zone list present
  and not empty; public list present and as long as the zone list; the same for the
  private list; environment present; project present; then the syntax of the network
  block, of each public block and of each private block). It throws one error, and the
  message starts with the name of the violated constraint's field.
\<close>

theorem validateArgs_first_violation:
  "(case find snd (constraints args) of
      None \<Rightarrow> validateArgs args = Inr ()
    | Some (field, _) \<Rightarrow> \<exists>msg. validateArgs args = Inl (Error msg) \<and> prefix field msg)"
proof (cases "falsy (cidrBlock args)")
  case True
  then show ?thesis by (simp add: constraints_def validateArgs_def not_present_falsy)
next
  case c: False
  show ?thesis
  proof (cases "availabilityZones args = None \<or> availabilityZones args = Some []")
    case True
    then show ?thesis using c by (simp add: constraints_def validateArgs_def not_present_falsy)
  next
    case False
    then obtain zs where z: "availabilityZones args = Some zs" "zs \<noteq> []" by auto
    show ?thesis
    proof (cases "publicSubnetCidrs args = None \<or>
        length (the_list (publicSubnetCidrs args)) \<noteq> length zs")
      case True
      then have "publicSubnetCidrs args = None \<or>
          map_option length (publicSubnetCidrs args) \<noteq> map_option length (availabilityZones args)"
        using z by (auto simp: the_list_def)
      then have va: "validateArgs args = Inl (Error
          ''publicSubnetCidrs must be provided and match the number of availability zones'')"
        using c z unfolding validateArgs_def by simp
      have cs: "find snd (constraints args) = Some (''publicSubnetCidrs'', True)"
        using c z True by (simp add: constraints_def not_present_falsy the_list_def)
      show ?thesis unfolding va cs by simp
    next
      case False
      then obtain ps where p: "publicSubnetCidrs args = Some ps" "length ps = length zs"
        by (auto simp: the_list_def)
      show ?thesis
      proof (cases "privateSubnetCidrs args = None \<or>
          length (the_list (privateSubnetCidrs args)) \<noteq> length zs")
        case True
        then have "privateSubnetCidrs args = None \<or>
            map_option length (privateSubnetCidrs args) \<noteq> map_option length (availabilityZones args)"
          using z by (auto simp: the_list_def)
        then have va: "validateArgs args = Inl (Error
            ''privateSubnetCidrs must be provided and match the number of availability zones'')"
          using c z p unfolding validateArgs_def by simp
        have cs: "find snd (constraints args) = Some (''privateSubnetCidrs'', True)"
          using c z p True by (simp add: constraints_def not_present_falsy the_list_def)
        show ?thesis unfolding va cs by simp
      next
        case False
        then obtain qs where q: "privateSubnetCidrs args = Some qs" "length qs = length zs"
          by (auto simp: the_list_def)
        show ?thesis
        proof (cases "falsy (environment args)")
          case True
          then show ?thesis using c z p q
            by (simp add: constraints_def validateArgs_def not_present_falsy the_list_def)
        next
          case e: False
          show ?thesis
          proof (cases "falsy (project args)")
            case True
            then show ?thesis using c z p q e
              by (simp add: constraints_def validateArgs_def not_present_falsy the_list_def)
          next
            case False
            with c z p q e show ?thesis by (intro validateArgs_cidr_stage)
          qed
        qed
      qed
    qed
  qed
qed

lemma spec_cidr_examples:
  "spec_cidr ''172.16.0.0/16''"
  "spec_cidr ''172.16.1.0/24''" "spec_cidr ''172.16.2.0/24''" "spec_cidr ''172.16.3.0/24''"
  "spec_cidr ''172.16.11.0/24''" "spec_cidr ''172.16.12.0/24''" "spec_cidr ''172.16.13.0/24''"
  "\<not> spec_cidr ''172.16.2.0/33''"
  unfolding validateCidrBlock_ok_iff [of _ "[]", symmetric] by code_simp+

theorem validateArgs_first_violation_witness:
  "find snd (constraints advanced_args) = None \<and> validateArgs advanced_args = Inr () \<and>
   find snd (constraints (advanced_args\<lparr>publicSubnetCidrs := Some [''172.16.1.0/24'', ''172.16.2.0/33'', ''x'']\<rparr>))
     = Some (''Public subnet 1 CIDR'', True) \<and>
   (\<exists>msg. validateArgs (advanced_args\<lparr>publicSubnetCidrs := Some [''172.16.1.0/24'', ''172.16.2.0/33'', ''x'']\<rparr>)
      = Inl (Error msg) \<and> prefix ''Public subnet 1 CIDR'' msg)"
proof -
  let ?bad = "advanced_args\<lparr>publicSubnetCidrs := Some [''172.16.1.0/24'', ''172.16.2.0/33'', ''x'']\<rparr>"
  have one: "string_of_nat 0 = ''0''" "string_of_nat (Suc 0) = ''1''"
    by code_simp+
  have a: "find snd (constraints advanced_args) = None"
    by (simp add: constraints_def advanced_args_def present_def the_list_def str_def
        spec_cidr_examples enumerate_eq_zip)
  have b: "find snd (constraints ?bad) = Some (''Public subnet 1 CIDR'', True)"
    by (simp add: constraints_def advanced_args_def present_def the_list_def str_def
        spec_cidr_examples one upt_rec)
  from validateArgs_first_violation [of advanced_args] a
  have c: "validateArgs advanced_args = Inr ()" by simp
  from validateArgs_first_violation [of ?bad] b
  have d: "\<exists>msg. validateArgs ?bad = Inl (Error msg) \<and> prefix ''Public subnet 1 CIDR'' msg"
    by simp
  from a b c d show ?thesis by simp
qed

section \<open>The constructor\<close>

subsection \<open>Steps of the constructor\<close>

lemma mapi_new_Inr:
  "mapi_new (\<lambda>x i. Inr (f x i)) p k xs st =
     (Inr [length st..<length st + length xs],
      st @ map (\<lambda>j. Decl (fst (f (xs ! j) (k + j))) p (snd (f (xs ! j) (k + j)))) [0..<length xs])"
proof (induction xs arbitrary: k st)
  case Nil
  show ?case by (simp add: return_def)
next
  case (Cons x xs)
  have upt: "[0..<Suc (length xs)] = 0 # map Suc [0..<length xs]"
    by (simp add: upt_conv_Cons map_Suc_upt del: upt_Suc)
  have upt2: "[length st..<Suc (length st + length xs)]
      = length st # [Suc (length st)..<Suc (length st + length xs)]"
    by (simp add: upt_conv_Cons del: upt_Suc)
  show ?case
    by (simp add: andThen_def lift_def new_def return_def Cons.IH upt upt2 o_def
        split: prod.splits del: upt_Suc)
qed

lemma andThen_new: "andThen (new nm p r) k st = k (length st) (st @ [Decl nm p r])"
  by (simp add: andThen_def new_def)

lemma andThen_lift_Inr: "andThen (lift (Inr x)) k st = k x st"
  by (simp add: andThen_def lift_def)

lemma andThen_return: "andThen (return x) k st = k x st"
  by (simp add: andThen_def return_def)

lemma andThen_mapi_new:
  "andThen (mapi_new (\<lambda>x i. Inr (f x i)) p k0 xs) k st =
     k [length st..<length st + length xs]
       (st @ map (\<lambda>j. Decl (fst (f (xs ! j) (k0 + j))) p (snd (f (xs ! j) (k0 + j)))) [0..<length xs])"
  by (simp add: andThen_def mapi_new_Inr)

lemma andThen_mapi_new_upt:
  "andThen (mapi_new (\<lambda>x i. Inr (f x i)) p k0 [a..<b]) k st =
     k [length st..<length st + (b - a)]
       (st @ map (\<lambda>j. Decl (fst (f (a + j) (k0 + j))) p (snd (f (a + j) (k0 + j)))) [0..<b - a])"
proof -
  have eq: "map (\<lambda>j. Decl (fst (f ([a..<b] ! j) (k0 + j))) p (snd (f ([a..<b] ! j) (k0 + j)))) [0..<b - a]
      = map (\<lambda>j. Decl (fst (f (a + j) (k0 + j))) p (snd (f (a + j) (k0 + j)))) [0..<b - a]"
    by (rule map_cong) auto
  show ?thesis by (simp only: andThen_mapi_new length_upt eq)
qed

lemma elem_upt: "i < b - a \<Longrightarrow> elem [a..<b] i = Inr (a + i)"
  by (simp add: elem_def at_def)

lemma mapi_new_elem_upt:
  "k + length xs \<le> b - a \<Longrightarrow>
   mapi_new (\<lambda>x i. thenE (elem [a..<b] i) (f x i)) p k xs = mapi_new (\<lambda>x i. f x i (a + i)) p k xs"
proof (induction xs arbitrary: k)
  case Nil
  show ?case by simp
next
  case (Cons x xs)
  have k: "k < b - a" and le: "Suc k + length xs \<le> b - a" using Cons.prems by auto
  have head: "thenE (elem [a..<b] k) (f x k) = f x k (a + k)"
    using k by (simp add: elem_upt thenE_def)
  show ?case
    by (simp only: mapi_new.simps head Cons.IH [OF le])
qed

lemma andThen_assoc: "andThen (andThen m f) g = andThen m (\<lambda>x. andThen (f x) g)"
  by (auto simp: andThen_def fun_eq_iff split: prod.splits sum.splits)

lemma thenE_Inr: "thenE (Inr x) k = k x"
  by (simp add: thenE_def)

subsection \<open>The constructor on a configuration the validator rejects\<close>

lemma Vpc_invalid:
  "validateArgs args = Inl e \<Longrightarrow>
   Vpc eng name args st = (Inl e, st @ [Decl name None (ComponentResource ''proserve:aws:Vpc'' args)])"
  by (simp add: Vpc_def andThen_def new_def lift_def)

subsection \<open>The constructor on a configuration the validator accepts\<close>

lemma validateArgs_shape:
  assumes "validateArgs args = Inr ()"
  shows "\<exists>zs ps qs. availabilityZones args = Some zs \<and> publicSubnetCidrs args = Some ps \<and>
     privateSubnetCidrs args = Some qs \<and> length ps = length zs \<and> length qs = length zs \<and>
     zs \<noteq> []"
proof -
  have z: "\<not> (availabilityZones args = None \<or> availabilityZones args = Some [])"
    and p: "\<not> (publicSubnetCidrs args = None \<or>
      map_option length (publicSubnetCidrs args) \<noteq> map_option length (availabilityZones args))"
    and q: "\<not> (privateSubnetCidrs args = None \<or>
      map_option length (privateSubnetCidrs args) \<noteq> map_option length (availabilityZones args))"
    using assms unfolding validateArgs_def by (auto split: if_splits)
  from z obtain zs where "availabilityZones args = Some zs" "zs \<noteq> []" by auto
  moreover from p obtain ps where "publicSubnetCidrs args = Some ps" by auto
  moreover from q obtain qs where "privateSubnetCidrs args = Some qs" by auto
  ultimately show ?thesis using p q by auto
qed

lemma Vpc_closed_form:
  assumes v: "validateArgs args = Inr ()"
    and z: "availabilityZones args = Some zs"
    and p: "publicSubnetCidrs args = Some ps"
    and q: "privateSubnetCidrs args = Some qs"
  shows "Vpc eng name args st =
    (Inr (result_outputs eng args (length st) (length zs)), st @ graph eng name args (length st) zs ps qs)"
proof -
  have lp: "length ps = length zs" and lq: "length qs = length zs"
    using validateArgs_shape [OF v] z p q by auto
  show ?thesis
  proof (cases "enableNatGateway args = Some False")
    case nat: False
    show ?thesis
      unfolding Vpc_def result_outputs_def graph_def nat_width_def component_decl_def vpc_decl_def
        igw_decl_def public_subnet_decl_def private_subnet_decl_def public_rt_decl_def
        public_rta_decl_def eip_decl_def nat_decl_def private_rt_decl_def private_rta_decl_def
        sg_decl_def log_group_decl_def role_decl_def role_policy_decl_def flow_log_decl_def
      by (simp add: andThen_new v z p q andThen_lift_Inr map_field_def index_field_def thenE_Inr
          andThen_mapi_new [where xs = zs] andThen_mapi_new_upt nat andThen_assoc andThen_return
          mapi_new_elem_upt lp lq return_def eval_nat_numeral add.assoc
          del: upt_Suc fun_upd_apply)
  next
    case nat: True
    show ?thesis
      unfolding Vpc_def result_outputs_def graph_def nat_width_def component_decl_def vpc_decl_def
        igw_decl_def public_subnet_decl_def private_subnet_decl_def public_rt_decl_def
        public_rta_decl_def eip_decl_def nat_decl_def private_rt_decl_def private_rta_decl_def
        sg_decl_def log_group_decl_def role_decl_def role_policy_decl_def flow_log_decl_def
      by (simp add: andThen_new v z p q andThen_lift_Inr map_field_def index_field_def thenE_Inr
          andThen_mapi_new [where xs = zs] andThen_mapi_new_upt nat andThen_assoc andThen_return
          mapi_new_elem_upt lp lq return_def eval_nat_numeral add.assoc
          del: upt_Suc fun_upd_apply)
  qed
qed

subsection \<open>Reading the closed form\<close>

lemma kind_of_decls [simp]:
  "kind_of (decl_resource (component_decl name args)) = KComponent"
  "kind_of (decl_resource (vpc_decl name args n0)) = KVpc"
  "kind_of (decl_resource (igw_decl eng name args n0)) = KInternetGateway"
  "kind_of (decl_resource (public_subnet_decl eng name args n0 zs ps j)) = KSubnet"
  "kind_of (decl_resource (private_subnet_decl eng name args n0 zs qs j)) = KSubnet"
  "kind_of (decl_resource (public_rt_decl eng name args n0)) = KRouteTable"
  "kind_of (decl_resource (public_rta_decl eng name n0 n j)) = KRouteTableAssociation"
  "kind_of (decl_resource (eip_decl name args n0 zs j)) = KEip"
  "kind_of (decl_resource (nat_decl eng name args n0 zs j)) = KNatGateway"
  "kind_of (decl_resource (private_rt_decl eng name args n0 zs j)) = KRouteTable"
  "kind_of (decl_resource (private_rta_decl eng name args n0 n j)) = KRouteTableAssociation"
  "kind_of (decl_resource (sg_decl eng name args n0)) = KDefaultSecurityGroup"
  "kind_of (decl_resource (log_group_decl name args n0)) = KLogGroup"
  "kind_of (decl_resource (role_decl name args n0)) = KRole"
  "kind_of (decl_resource (role_policy_decl eng name args n0 n)) = KRolePolicy"
  "kind_of (decl_resource (flow_log_decl eng name args n0 n)) = KFlowLog"
  by (simp_all add: component_decl_def vpc_decl_def
        igw_decl_def public_subnet_decl_def private_subnet_decl_def public_rt_decl_def
        public_rta_decl_def eip_decl_def nat_decl_def private_rt_decl_def private_rta_decl_def
        sg_decl_def log_group_decl_def role_decl_def role_policy_decl_def flow_log_decl_def)

lemma length_graph:
  "length (graph eng name args n0 zs ps qs) =
     5 + 5 * length zs + nat_width args (length zs) +
     (if enableFlowLogs args \<noteq> Some False then 4 else 0)"
  by (simp add: graph_def nat_width_def)

lemma graph_nth:
  assumes i: "i < length zs"
  shows "graph eng name args n0 zs ps qs ! 0 = component_decl name args"
    and "graph eng name args n0 zs ps qs ! 1 = vpc_decl name args n0"
    and "graph eng name args n0 zs ps qs ! 2 = igw_decl eng name args n0"
    and "graph eng name args n0 zs ps qs ! (3 + i) = public_subnet_decl eng name args n0 zs ps i"
    and "graph eng name args n0 zs ps qs ! (3 + length zs + i)
          = private_subnet_decl eng name args n0 zs qs i"
    and "graph eng name args n0 zs ps qs ! (3 + 2 * length zs) = public_rt_decl eng name args n0"
    and "graph eng name args n0 zs ps qs ! (4 + 2 * length zs + i)
          = public_rta_decl eng name n0 (length zs) i"
    and "enableNatGateway args \<noteq> Some False \<Longrightarrow>
         graph eng name args n0 zs ps qs ! (4 + 3 * length zs + i) = eip_decl name args n0 zs i"
    and "enableNatGateway args \<noteq> Some False \<Longrightarrow>
         graph eng name args n0 zs ps qs ! (4 + 4 * length zs + i) = nat_decl eng name args n0 zs i"
    and "graph eng name args n0 zs ps qs ! (4 + 3 * length zs + nat_width args (length zs) + i)
          = private_rt_decl eng name args n0 zs i"
    and "graph eng name args n0 zs ps qs ! (4 + 4 * length zs + nat_width args (length zs) + i)
          = private_rta_decl eng name args n0 (length zs) i"
    and "graph eng name args n0 zs ps qs ! (4 + 5 * length zs + nat_width args (length zs))
          = sg_decl eng name args n0"
  using i by (auto simp: graph_def nat_width_def nth_append)

lemma graph_nth_flow:
  assumes f: "enableFlowLogs args \<noteq> Some False"
  shows "graph eng name args n0 zs ps qs ! (5 + 5 * length zs + nat_width args (length zs))
          = log_group_decl name args n0"
    and "graph eng name args n0 zs ps qs ! (6 + 5 * length zs + nat_width args (length zs))
          = role_decl name args n0"
    and "graph eng name args n0 zs ps qs ! (7 + 5 * length zs + nat_width args (length zs))
          = role_policy_decl eng name args n0 (length zs)"
    and "graph eng name args n0 zs ps qs ! (8 + 5 * length zs + nat_width args (length zs))
          = flow_log_decl eng name args n0 (length zs)"
  using f by (simp_all add: graph_def nat_width_def nth_append)

lemma of_kind_graph:
  "of_kind KSubnet (graph eng name args n0 zs ps qs) =
     map (public_subnet_decl eng name args n0 zs ps) [0..<length zs] @
     map (private_subnet_decl eng name args n0 zs qs) [0..<length zs]"
  "of_kind KEip (graph eng name args n0 zs ps qs) =
     (if enableNatGateway args \<noteq> Some False
      then map (eip_decl name args n0 zs) [0..<length zs] else [])"
  "of_kind KNatGateway (graph eng name args n0 zs ps qs) =
     (if enableNatGateway args \<noteq> Some False
      then map (nat_decl eng name args n0 zs) [0..<length zs] else [])"
  "of_kind KRouteTable (graph eng name args n0 zs ps qs) =
     public_rt_decl eng name args n0 # map (private_rt_decl eng name args n0 zs) [0..<length zs]"
  "of_kind KVpc (graph eng name args n0 zs ps qs) = [vpc_decl name args n0]"
  "of_kind KLogGroup (graph eng name args n0 zs ps qs) =
     (if enableFlowLogs args \<noteq> Some False then [log_group_decl name args n0] else [])"
  "of_kind KRole (graph eng name args n0 zs ps qs) =
     (if enableFlowLogs args \<noteq> Some False then [role_decl name args n0] else [])"
  "of_kind KRolePolicy (graph eng name args n0 zs ps qs) =
     (if enableFlowLogs args \<noteq> Some False
      then [role_policy_decl eng name args n0 (length zs)] else [])"
  "of_kind KFlowLog (graph eng name args n0 zs ps qs) =
     (if enableFlowLogs args \<noteq> Some False
      then [flow_log_decl eng name args n0 (length zs)] else [])"
  by (simp_all add: graph_def of_kind_def filter_map o_def)


lemma map_upt_nth: "map (\<lambda>j. f (xs ! j)) [0..<length xs] = map f xs"
proof -
  have "map f xs = map f (map (\<lambda>j. xs ! j) [0..<length xs])" by (simp only: map_nth)
  then show ?thesis by (simp only: map_map o_def)
qed

lemma at_append_graph:
  "k < length g \<Longrightarrow> at (st @ g) (length st + k) = Some (g ! k)"
  by (simp add: at_def)

lemma Vpc_run:
  assumes v: "validateArgs args = Inr ()"
    and z: "availabilityZones args = Some zs"
    and p: "publicSubnetCidrs args = Some ps"
    and q: "privateSubnetCidrs args = Some qs"
    and run: "Vpc eng name args st = (r, st')"
  shows "r = Inr (result_outputs eng args (length st) (length zs))"
    and "st' = st @ graph eng name args (length st) zs ps qs"
    and "drop (length st) st' = graph eng name args (length st) zs ps qs"
    and "length ps = length zs" and "length qs = length zs"
  using Vpc_closed_form [OF v z p q, of eng name st] run validateArgs_shape [OF v] z p q
  by auto

lemma example_args_valid:
  "validateArgs basic_args = Inr ()"
  "validateArgs advanced_args = Inr ()"
  by code_simp+

subsection \<open>Renaming the engine-assigned values\<close>

lemma map_graph:
  "map (map_decl (\<lambda>(h, a). eng h a)) (graph Pair name args n0 zs ps qs) = graph eng name args n0 zs ps qs"
  unfolding graph_def component_decl_def vpc_decl_def
    igw_decl_def public_subnet_decl_def private_subnet_decl_def public_rt_decl_def
    public_rta_decl_def eip_decl_def nat_decl_def private_rt_decl_def private_rta_decl_def
    sg_decl_def log_group_decl_def role_decl_def role_policy_decl_def flow_log_decl_def
  by (simp add: o_def del: fun_upd_apply upt_Suc)

lemma map_result_outputs:
  "map_outputs (\<lambda>(h, a). eng h a) (result_outputs Pair args n0 n) = result_outputs eng args n0 n"
  by (simp add: map_outputs_def result_outputs_def o_def del: upt_Suc)

lemma Vpc_rename:
  "Vpc Pair name args st0 = (r, g) \<Longrightarrow>
   Vpc eng name args (map (map_decl (\<lambda>(h, a). eng h a)) st0) =
     (map_sum id (map_outputs (\<lambda>(h, a). eng h a)) r, map (map_decl (\<lambda>(h, a). eng h a)) g)"
proof (cases "validateArgs args")
  case (Inl e)
  assume run: "Vpc Pair name args st0 = (r, g)"
  show ?thesis
    using run unfolding Vpc_invalid [OF Inl] by auto
next
  case (Inr u)
  assume run: "Vpc Pair name args st0 = (r, g)"
  have v: "validateArgs args = Inr ()" using Inr by simp
  obtain zs ps qs where z: "availabilityZones args = Some zs"
    and p: "publicSubnetCidrs args = Some ps" and q: "privateSubnetCidrs args = Some qs"
    using validateArgs_shape [OF v] by blast
  show ?thesis
    using run unfolding Vpc_closed_form [OF v z p q]
    by (auto simp: map_graph map_result_outputs)
qed

subsection \<open>Tags\<close>

lemma decl_name_decls:
  "decl_name (igw_decl eng name args n0) = name @ ''-igw''"
  "decl_name (public_subnet_decl eng name args n0 zs ps j) = name @ ''-public-'' @ zs ! j"
  "decl_name (private_subnet_decl eng name args n0 zs qs j) = name @ ''-private-'' @ zs ! j"
  "decl_name (public_rt_decl eng name args n0) = name @ ''-public-rt''"
  "decl_name (eip_decl name args n0 zs j) = name @ ''-nat-eip-'' @ zs ! j"
  "decl_name (nat_decl eng name args n0 zs j) = name @ ''-nat-'' @ zs ! j"
  "decl_name (private_rt_decl eng name args n0 zs j) = name @ ''-private-rt-'' @ zs ! j"
  "decl_name (sg_decl eng name args n0) = name @ ''-default-sg''"
  "decl_name (flow_log_decl eng name args n0 n) = name @ ''-flow-log''"
  "decl_name (component_decl name args) = name"
  "decl_name (vpc_decl name args n0) = name @ ''-vpc''"
  "decl_name (public_rta_decl eng name n0 n j) = name @ ''-public-rta-'' @ string_of_nat j"
  "decl_name (private_rta_decl eng name args n0 n j) = name @ ''-private-rta-'' @ string_of_nat j"
  "decl_name (log_group_decl name args n0) = name @ ''-flow-logs''"
  "decl_name (role_decl name args n0) = name @ ''-flow-log-role''"
  "decl_name (role_policy_decl eng name args n0 n) = name @ ''-flow-log-policy''"
  by (simp_all add: component_decl_def vpc_decl_def
        igw_decl_def public_subnet_decl_def private_subnet_decl_def public_rt_decl_def
        public_rta_decl_def eip_decl_def nat_decl_def private_rt_decl_def private_rta_decl_def
        sg_decl_def log_group_decl_def role_decl_def role_policy_decl_def flow_log_decl_def)

lemma tags_of_decls:
  "resource_tags (decl_resource (component_decl name args)) = Map.empty"
  "resource_tags (decl_resource (igw_decl eng name args n0)) =
     [''Name'' \<mapsto> Some (name @ ''-igw''), ''Environment'' \<mapsto> environment args,
      ''Project'' \<mapsto> project args, ''ManagedBy'' \<mapsto> Some ''pulumi'']"
  "resource_tags (decl_resource (public_subnet_decl eng name args n0 zs ps j)) =
     [''Name'' \<mapsto> Some (name @ ''-public-'' @ zs ! j),
      ''Environment'' \<mapsto> environment args, ''Project'' \<mapsto> project args,
      ''Type'' \<mapsto> Some ''public'', ''ManagedBy'' \<mapsto> Some ''pulumi'']"
  "resource_tags (decl_resource (private_subnet_decl eng name args n0 zs qs j)) =
     [''Name'' \<mapsto> Some (name @ ''-private-'' @ zs ! j),
      ''Environment'' \<mapsto> environment args, ''Project'' \<mapsto> project args,
      ''Type'' \<mapsto> Some ''private'', ''ManagedBy'' \<mapsto> Some ''pulumi'']"
  "resource_tags (decl_resource (public_rt_decl eng name args n0)) =
     [''Name'' \<mapsto> Some (name @ ''-public-rt''),
      ''Environment'' \<mapsto> environment args, ''Project'' \<mapsto> project args,
      ''Type'' \<mapsto> Some ''public'', ''ManagedBy'' \<mapsto> Some ''pulumi'']"
  "resource_tags (decl_resource (public_rta_decl eng name n0 n j)) = Map.empty"
  "resource_tags (decl_resource (eip_decl name args n0 zs j)) =
     [''Name'' \<mapsto> Some (name @ ''-nat-eip-'' @ zs ! j), ''Environment'' \<mapsto> environment args,
      ''Project'' \<mapsto> project args, ''ManagedBy'' \<mapsto> Some ''pulumi'']"
  "resource_tags (decl_resource (nat_decl eng name args n0 zs j)) =
     [''Name'' \<mapsto> Some (name @ ''-nat-'' @ zs ! j), ''Environment'' \<mapsto> environment args,
      ''Project'' \<mapsto> project args, ''ManagedBy'' \<mapsto> Some ''pulumi'']"
  "resource_tags (decl_resource (private_rt_decl eng name args n0 zs j)) =
     [''Name'' \<mapsto> Some (name @ ''-private-rt-'' @ zs ! j),
      ''Environment'' \<mapsto> environment args, ''Project'' \<mapsto> project args,
      ''Type'' \<mapsto> Some ''private'', ''ManagedBy'' \<mapsto> Some ''pulumi'']"
  "resource_tags (decl_resource (private_rta_decl eng name args n0 n j)) = Map.empty"
  "resource_tags (decl_resource (sg_decl eng name args n0)) =
     [''Name'' \<mapsto> Some (name @ ''-default-sg''), ''Environment'' \<mapsto> environment args,
      ''Project'' \<mapsto> project args, ''ManagedBy'' \<mapsto> Some ''pulumi'']"
  "resource_tags (decl_resource (log_group_decl name args n0)) =
     [''Environment'' \<mapsto> environment args, ''Project'' \<mapsto> project args,
      ''ManagedBy'' \<mapsto> Some ''pulumi'']"
  "resource_tags (decl_resource (role_decl name args n0)) =
     [''Environment'' \<mapsto> environment args, ''Project'' \<mapsto> project args,
      ''ManagedBy'' \<mapsto> Some ''pulumi'']"
  "resource_tags (decl_resource (role_policy_decl eng name args n0 n)) = Map.empty"
  "resource_tags (decl_resource (flow_log_decl eng name args n0 n)) =
     [''Name'' \<mapsto> Some (name @ ''-flow-log''), ''Environment'' \<mapsto> environment args,
      ''Project'' \<mapsto> project args, ''ManagedBy'' \<mapsto> Some ''pulumi'']"
  by (simp_all add: component_decl_def
        igw_decl_def public_subnet_decl_def private_subnet_decl_def public_rt_decl_def
        public_rta_decl_def eip_decl_def nat_decl_def private_rt_decl_def private_rta_decl_def
        sg_decl_def log_group_decl_def role_decl_def role_policy_decl_def flow_log_decl_def
        del: fun_upd_apply)

lemma standard_only_decls:
  "standard_only args (component_decl name args)"
  "standard_only args (igw_decl eng name args n0)"
  "standard_only args (public_subnet_decl eng name args n0 zs ps j)"
  "standard_only args (private_subnet_decl eng name args n0 zs qs j)"
  "standard_only args (public_rt_decl eng name args n0)"
  "standard_only args (public_rta_decl eng name n0 n j)"
  "standard_only args (eip_decl name args n0 zs j)"
  "standard_only args (nat_decl eng name args n0 zs j)"
  "standard_only args (private_rt_decl eng name args n0 zs j)"
  "standard_only args (private_rta_decl eng name args n0 n j)"
  "standard_only args (sg_decl eng name args n0)"
  "standard_only args (log_group_decl name args n0)"
  "standard_only args (role_decl name args n0)"
  "standard_only args (role_policy_decl eng name args n0 n)"
  "standard_only args (flow_log_decl eng name args n0 n)"
  unfolding standard_only_def tags_of_decls decl_name_decls
  by (rule exI [of _ "''public''"], simp add: map_le_def; fail |
      rule exI [of _ "''private''"], simp add: map_le_def)+

lemma graph_standard_only:
  "d \<in> set (graph eng name args n0 zs ps qs) \<Longrightarrow> kind_of (decl_resource d) \<noteq> KVpc \<Longrightarrow>
   standard_only args d"
  by (auto simp: graph_def standard_only_decls split: if_splits)

lemma graph_no_type_tag:
  "d \<in> set (graph eng name args n0 zs ps qs) \<Longrightarrow>
   kind_of (decl_resource d) \<notin> {KVpc, KSubnet, KRouteTable} \<Longrightarrow>
   resource_tags (decl_resource d) ''Type'' = None"
  by (auto simp: graph_def tags_of_decls split: if_splits)

section \<open>Properties of the constructor\<close>

text \<open>
  Claim C1. For every valid configuration the output bundle has one public and one private
  subnet identifier per availability zone, both lists in the order of the zones: the
  identifier at index \<open>i\<close> is the one the engine assigns to the subnet declared for zone
  \<open>i\<close> with the address block at index \<open>i\<close>, and these are the only subnets declared.
\<close>

theorem Vpc_subnet_ids_per_zone:
  assumes v: "validateArgs args = Inr ()"
    and z: "availabilityZones args = Some zs"
    and p: "publicSubnetCidrs args = Some ps"
    and q: "privateSubnetCidrs args = Some qs"
    and run: "Vpc eng name args st = (r, st')"
  shows "\<exists>out. r = Inr out \<and>
     length (publicSubnetIds out) = length zs \<and> length (privateSubnetIds out) = length zs \<and>
     (\<forall>i<length zs. \<exists>h v tg. publicSubnetIds out ! i = eng h AttrId \<and>
        at st' h = Some (Decl (name @ ''-public-'' @ zs ! i) (Some (length st))
          (Ec2Subnet v (Some (ps ! i)) (zs ! i) True tg))) \<and>
     (\<forall>i<length zs. \<exists>h v tg. privateSubnetIds out ! i = eng h AttrId \<and>
        at st' h = Some (Decl (name @ ''-private-'' @ zs ! i) (Some (length st))
          (Ec2Subnet v (Some (qs ! i)) (zs ! i) False tg))) \<and>
     map decl_name (of_kind KSubnet (drop (length st) st')) =
       map (\<lambda>z. name @ ''-public-'' @ z) zs @ map (\<lambda>z. name @ ''-private-'' @ z) zs"
proof -
  note R = Vpc_run [OF v z p q run]
  let ?out = "result_outputs eng args (length st) (length zs)"
  let ?g = "graph eng name args (length st) zs ps qs"
  have l1: "length (publicSubnetIds ?out) = length zs" "length (privateSubnetIds ?out) = length zs"
    by (simp_all add: result_outputs_def)
  have pub: "\<exists>h v tg. publicSubnetIds ?out ! i = eng h AttrId \<and>
        at st' h = Some (Decl (name @ ''-public-'' @ zs ! i) (Some (length st))
          (Ec2Subnet v (Some (ps ! i)) (zs ! i) True tg))" if i: "i < length zs" for i
  proof -
    have a: "publicSubnetIds ?out ! i = eng (length st + (3 + i)) AttrId"
      using i by (simp add: result_outputs_def add.assoc)
    have "3 + i < length ?g" using i by (simp add: length_graph)
    then have "at st' (length st + (3 + i)) = Some (?g ! (3 + i))"
      unfolding R(2) by (rule at_append_graph)
    then have b: "at st' (length st + (3 + i)) = Some (Decl (name @ ''-public-'' @ zs ! i)
        (Some (length st)) (Ec2Subnet (eng (length st + 1) AttrId) (Some (ps ! i)) (zs ! i) True
          [''Name'' \<mapsto> Some (name @ ''-public-'' @ zs ! i), ''Environment'' \<mapsto> environment args,
           ''Project'' \<mapsto> project args, ''Type'' \<mapsto> Some ''public'',
           ''ManagedBy'' \<mapsto> Some ''pulumi'']))"
      using i R(4) by (simp add: graph_nth public_subnet_decl_def at_def)
    from a b show ?thesis by blast
  qed
  have priv: "\<exists>h v tg. privateSubnetIds ?out ! i = eng h AttrId \<and>
        at st' h = Some (Decl (name @ ''-private-'' @ zs ! i) (Some (length st))
          (Ec2Subnet v (Some (qs ! i)) (zs ! i) False tg))" if i: "i < length zs" for i
  proof -
    have a: "privateSubnetIds ?out ! i = eng (length st + (3 + length zs + i)) AttrId"
      using i by (simp add: result_outputs_def add.assoc)
    have "3 + length zs + i < length ?g" using i by (simp add: length_graph)
    then have "at st' (length st + (3 + length zs + i)) = Some (?g ! (3 + length zs + i))"
      unfolding R(2) by (rule at_append_graph)
    then have b: "at st' (length st + (3 + length zs + i)) = Some (Decl (name @ ''-private-'' @ zs ! i)
        (Some (length st)) (Ec2Subnet (eng (length st + 1) AttrId) (Some (qs ! i)) (zs ! i) False
          [''Name'' \<mapsto> Some (name @ ''-private-'' @ zs ! i), ''Environment'' \<mapsto> environment args,
           ''Project'' \<mapsto> project args, ''Type'' \<mapsto> Some ''private'',
           ''ManagedBy'' \<mapsto> Some ''pulumi'']))"
      using i R(5) by (simp add: graph_nth private_subnet_decl_def at_def)
    from a b show ?thesis by blast
  qed
  have names: "map decl_name (of_kind KSubnet (drop (length st) st')) =
       map (\<lambda>z. name @ ''-public-'' @ z) zs @ map (\<lambda>z. name @ ''-private-'' @ z) zs"
    unfolding R(3) of_kind_graph
    using map_upt_nth [of "\<lambda>z. name @ ''-public-'' @ z" zs]
      map_upt_nth [of "\<lambda>z. name @ ''-private-'' @ z" zs]
    by (simp add: public_subnet_decl_def private_subnet_decl_def o_def)
  show ?thesis using R(1) l1 pub priv names by blast
qed

theorem Vpc_subnet_ids_per_zone_witness:
  "validateArgs basic_args = Inr () \<and>
   (\<exists>out. fst (Vpc Pair ''example-vpc'' basic_args []) = Inr out \<and>
      length (publicSubnetIds out) = 2 \<and> length (privateSubnetIds out) = 2 \<and>
      (\<exists>h v tg. publicSubnetIds out ! 1 = (h, AttrId) \<and>
         at (snd (Vpc Pair ''example-vpc'' basic_args [])) h =
           Some (Decl ''example-vpc-public-us-east-1b'' (Some 0)
             (Ec2Subnet v (Some ''10.0.2.0/24'') ''us-east-1b'' True tg))))"
proof -
  have v: "validateArgs basic_args = Inr ()" by (rule example_args_valid)
  have z: "availabilityZones basic_args = Some [''us-east-1a'', ''us-east-1b'']"
    and p: "publicSubnetCidrs basic_args = Some [''10.0.1.0/24'', ''10.0.2.0/24'']"
    and q: "privateSubnetCidrs basic_args = Some [''10.0.11.0/24'', ''10.0.12.0/24'']"
    by (simp_all add: basic_args_def)
  from Vpc_subnet_ids_per_zone [where eng = Pair and name = "''example-vpc''" and st = "[]",
      OF v z p q prod.collapse [symmetric]]
  obtain out where o: "fst (Vpc Pair ''example-vpc'' basic_args []) = Inr out"
      "length (publicSubnetIds out) = 2" "length (privateSubnetIds out) = 2"
      "\<forall>i<2. \<exists>h v tg. publicSubnetIds out ! i = (h, AttrId) \<and>
        at (snd (Vpc Pair ''example-vpc'' basic_args [])) h =
          Some (Decl (''example-vpc'' @ ''-public-'' @ [''us-east-1a'', ''us-east-1b''] ! i) (Some 0)
            (Ec2Subnet v (Some ([''10.0.1.0/24'', ''10.0.2.0/24''] ! i))
              ([''us-east-1a'', ''us-east-1b''] ! i) True tg))"
    by auto
  from o(4) have "\<exists>h v tg. publicSubnetIds out ! 1 = (h, AttrId) \<and>
        at (snd (Vpc Pair ''example-vpc'' basic_args [])) h =
          Some (Decl (''example-vpc'' @ ''-public-'' @ [''us-east-1a'', ''us-east-1b''] ! 1) (Some 0)
            (Ec2Subnet v (Some ([''10.0.1.0/24'', ''10.0.2.0/24''] ! 1))
              ([''us-east-1a'', ''us-east-1b''] ! 1) True tg))"
    by (rule allE [of _ 1]) simp
  then have "\<exists>h v tg. publicSubnetIds out ! 1 = (h, AttrId) \<and>
        at (snd (Vpc Pair ''example-vpc'' basic_args [])) h =
          Some (Decl ''example-vpc-public-us-east-1b'' (Some 0)
            (Ec2Subnet v (Some ''10.0.2.0/24'') ''us-east-1b'' True tg))"
    by simp
  with v o(1,2,3) show ?thesis by blast
qed

text \<open>
  Claim C2. For every valid configuration with the NAT flag enabled (not set to false), one
  elastic address and one NAT gateway are declared per zone, the NAT gateway of zone \<open>i\<close>
  bound to the elastic address and to the public subnet of zone \<open>i\<close>; there are as many
  NAT gateway identifiers as zones; and the private route table of zone \<open>i\<close> has the single
  route \<open>0.0.0.0/0\<close> to the NAT gateway of zone \<open>i\<close>.
\<close>

theorem Vpc_nat_enabled:
  assumes v: "validateArgs args = Inr ()"
    and z: "availabilityZones args = Some zs"
    and nat: "enableNatGateway args \<noteq> Some False"
    and run: "Vpc eng name args st = (r, st')"
  shows "\<exists>out. r = Inr out \<and> length (natGatewayIds out) = length zs \<and>
     map decl_name (of_kind KEip (drop (length st) st')) = map (\<lambda>z. name @ ''-nat-eip-'' @ z) zs \<and>
     map decl_name (of_kind KNatGateway (drop (length st) st')) = map (\<lambda>z. name @ ''-nat-'' @ z) zs \<and>
     (\<forall>i<length zs. \<exists>e s g t v c tge tgs tgg tgt.
        at st' e = Some (Decl (name @ ''-nat-eip-'' @ zs ! i) (Some (length st)) (Ec2Eip ''vpc'' tge)) \<and>
        publicSubnetIds out ! i = eng s AttrId \<and>
        at st' s = Some (Decl (name @ ''-public-'' @ zs ! i) (Some (length st))
          (Ec2Subnet v c (zs ! i) True tgs)) \<and>
        natGatewayIds out ! i = eng g AttrId \<and>
        at st' g = Some (Decl (name @ ''-nat-'' @ zs ! i) (Some (length st))
          (Ec2NatGateway (eng e AttrId) (eng s AttrId) tgg)) \<and>
        privateRouteTableIds out ! i = eng t AttrId \<and>
        at st' t = Some (Decl (name @ ''-private-rt-'' @ zs ! i) (Some (length st))
          (Ec2RouteTable v (Some [NatGatewayRoute ''0.0.0.0/0'' (eng g AttrId)]) tgt)))"
proof -
  obtain ps qs where p: "publicSubnetCidrs args = Some ps" and q: "privateSubnetCidrs args = Some qs"
    using validateArgs_shape [OF v] by blast
  note R = Vpc_run [OF v z p q run]
  let ?n = "length zs"
  let ?out = "result_outputs eng args (length st) ?n"
  let ?g = "graph eng name args (length st) zs ps qs"
  have w: "nat_width args ?n = 2 * ?n" using nat by (simp add: nat_width_def)
  have len: "length (natGatewayIds ?out) = ?n" using nat by (simp add: result_outputs_def)
  have eips: "map decl_name (of_kind KEip (drop (length st) st')) = map (\<lambda>z. name @ ''-nat-eip-'' @ z) zs"
    unfolding R(3) of_kind_graph using nat map_upt_nth [of "\<lambda>z. name @ ''-nat-eip-'' @ z" zs]
    by (simp add: eip_decl_def o_def)
  have nats: "map decl_name (of_kind KNatGateway (drop (length st) st')) = map (\<lambda>z. name @ ''-nat-'' @ z) zs"
    unfolding R(3) of_kind_graph using nat map_upt_nth [of "\<lambda>z. name @ ''-nat-'' @ z" zs]
    by (simp add: nat_decl_def o_def)
  have wiring: "\<exists>e s g t v c tge tgs tgg tgt.
        at st' e = Some (Decl (name @ ''-nat-eip-'' @ zs ! i) (Some (length st)) (Ec2Eip ''vpc'' tge)) \<and>
        publicSubnetIds ?out ! i = eng s AttrId \<and>
        at st' s = Some (Decl (name @ ''-public-'' @ zs ! i) (Some (length st))
          (Ec2Subnet v c (zs ! i) True tgs)) \<and>
        natGatewayIds ?out ! i = eng g AttrId \<and>
        at st' g = Some (Decl (name @ ''-nat-'' @ zs ! i) (Some (length st))
          (Ec2NatGateway (eng e AttrId) (eng s AttrId) tgg)) \<and>
        privateRouteTableIds ?out ! i = eng t AttrId \<and>
        at st' t = Some (Decl (name @ ''-private-rt-'' @ zs ! i) (Some (length st))
          (Ec2RouteTable v (Some [NatGatewayRoute ''0.0.0.0/0'' (eng g AttrId)]) tgt))"
    if i: "i < ?n" for i
  proof -
    let ?e = "length st + (4 + 3 * ?n + i)"
    let ?s = "length st + (3 + i)"
    let ?gw = "length st + (4 + 4 * ?n + i)"
    let ?t = "length st + (4 + 3 * ?n + nat_width args ?n + i)"
    have lt: "4 + 3 * ?n + i < length ?g" "3 + i < length ?g" "4 + 4 * ?n + i < length ?g"
        "4 + 3 * ?n + nat_width args ?n + i < length ?g"
      using i by (simp_all add: length_graph w)
    have e: "at st' ?e = Some (eip_decl name args (length st) zs i)"
      unfolding R(2) at_append_graph [OF lt(1)] using i nat by (simp add: graph_nth)
    have s: "at st' ?s = Some (public_subnet_decl eng name args (length st) zs ps i)"
      unfolding R(2) at_append_graph [OF lt(2)] using i by (simp add: graph_nth)
    have g: "at st' ?gw = Some (nat_decl eng name args (length st) zs i)"
      unfolding R(2) at_append_graph [OF lt(3)] using i nat by (simp add: graph_nth)
    have t: "at st' ?t = Some (private_rt_decl eng name args (length st) zs i)"
      unfolding R(2) at_append_graph [OF lt(4)] using i by (simp add: graph_nth)
    have o1: "publicSubnetIds ?out ! i = eng ?s AttrId"
      using i by (simp add: result_outputs_def add.assoc)
    have o2: "natGatewayIds ?out ! i = eng ?gw AttrId"
      using i nat by (simp add: result_outputs_def add.assoc)
    have o3: "privateRouteTableIds ?out ! i = eng ?t AttrId"
      using i by (simp add: result_outputs_def add.assoc)
    have h: "length st + 4 + 3 * ?n + i = ?e" "length st + 3 + i = ?s"
        "length st + 4 + 4 * ?n + i = ?gw"
      by simp_all
    show ?thesis
      using e s g t o1 o2 o3 nat
      unfolding eip_decl_def public_subnet_decl_def nat_decl_def private_rt_decl_def h
      by (intro exI [of _ ?e] exI [of _ ?s] exI [of _ ?gw] exI [of _ ?t]) auto
  qed
  show ?thesis using R(1) len eips nats wiring by blast
qed

theorem Vpc_nat_enabled_witness:
  "validateArgs basic_args = Inr () \<and> enableNatGateway basic_args \<noteq> Some False \<and>
   (\<exists>out. fst (Vpc Pair ''example-vpc'' basic_args []) = Inr out \<and>
      length (natGatewayIds out) = 2 \<and>
      map decl_name (of_kind KNatGateway (snd (Vpc Pair ''example-vpc'' basic_args [])))
        = [''example-vpc-nat-us-east-1a'', ''example-vpc-nat-us-east-1b''])"
proof -
  have v: "validateArgs basic_args = Inr ()" by (rule example_args_valid)
  have z: "availabilityZones basic_args = Some [''us-east-1a'', ''us-east-1b'']"
    and n: "enableNatGateway basic_args \<noteq> Some False"
    by (simp_all add: basic_args_def)
  from Vpc_nat_enabled [where eng = Pair and name = "''example-vpc''" and st = "[]",
      OF v z n prod.collapse [symmetric]]
  obtain out where o: "fst (Vpc Pair ''example-vpc'' basic_args []) = Inr out"
      "length (natGatewayIds out) = 2"
      "map decl_name (of_kind KNatGateway (snd (Vpc Pair ''example-vpc'' basic_args [])))
        = [''example-vpc-nat-us-east-1a'', ''example-vpc-nat-us-east-1b'']"
    by auto
  show ?thesis by (intro conjI exI [of _ out]) (rule v n o)+
qed

text \<open>
  Claim C3. For every valid configuration with the NAT flag set to false, the list of NAT
  gateway identifiers is empty, no NAT gateway and no elastic address is declared, and
  every private route table (one per zone, behind the private route table identifiers) is
  declared without routes: the only declared route table that has a route is the public
  one.
\<close>

theorem Vpc_nat_disabled:
  assumes v: "validateArgs args = Inr ()"
    and z: "availabilityZones args = Some zs"
    and nat: "enableNatGateway args = Some False"
    and run: "Vpc eng name args st = (r, st')"
  shows "\<exists>out. r = Inr out \<and> natGatewayIds out = [] \<and>
     of_kind KNatGateway (drop (length st) st') = [] \<and>
     of_kind KEip (drop (length st) st') = [] \<and>
     length (privateRouteTableIds out) = length zs \<and>
     (\<forall>i<length zs. \<exists>t v tg. privateRouteTableIds out ! i = eng t AttrId \<and>
        at st' t = Some (Decl (name @ ''-private-rt-'' @ zs ! i) (Some (length st))
          (Ec2RouteTable v None tg))) \<and>
     map (\<lambda>d. routes_of (decl_resource d)) (of_kind KRouteTable (drop (length st) st')) =
       Some [GatewayRoute ''0.0.0.0/0'' (internetGatewayId out)] # replicate (length zs) None"
proof -
  obtain ps qs where p: "publicSubnetCidrs args = Some ps" and q: "privateSubnetCidrs args = Some qs"
    using validateArgs_shape [OF v] by blast
  note R = Vpc_run [OF v z p q run]
  let ?n = "length zs"
  let ?out = "result_outputs eng args (length st) ?n"
  let ?g = "graph eng name args (length st) zs ps qs"
  have w: "nat_width args ?n = 0" using nat by (simp add: nat_width_def)
  have ids: "natGatewayIds ?out = []" "length (privateRouteTableIds ?out) = ?n"
    using nat by (simp_all add: result_outputs_def)
  have none: "of_kind KNatGateway (drop (length st) st') = []" "of_kind KEip (drop (length st) st') = []"
    unfolding R(3) of_kind_graph using nat by simp_all
  have tables: "\<exists>t v tg. privateRouteTableIds ?out ! i = eng t AttrId \<and>
        at st' t = Some (Decl (name @ ''-private-rt-'' @ zs ! i) (Some (length st))
          (Ec2RouteTable v None tg))" if i: "i < ?n" for i
  proof -
    let ?t = "length st + (4 + 3 * ?n + nat_width args ?n + i)"
    have lt: "4 + 3 * ?n + nat_width args ?n + i < length ?g"
      using i by (simp add: length_graph w)
    have t: "at st' ?t = Some (private_rt_decl eng name args (length st) zs i)"
      unfolding R(2) at_append_graph [OF lt] using i by (simp add: graph_nth)
    have o: "privateRouteTableIds ?out ! i = eng ?t AttrId"
      using i by (simp add: result_outputs_def add.assoc)
    show ?thesis
      using t o nat unfolding private_rt_decl_def by (intro exI [of _ ?t]) auto
  qed
  have routes: "map (\<lambda>d. routes_of (decl_resource d)) (of_kind KRouteTable (drop (length st) st')) =
       Some [GatewayRoute ''0.0.0.0/0'' (internetGatewayId ?out)] # replicate ?n None"
  proof -
    have pr: "\<And>j. routes_of (decl_resource (private_rt_decl eng name args (length st) zs j)) = None"
      using nat by (simp add: private_rt_decl_def)
    have pu: "routes_of (decl_resource (public_rt_decl eng name args (length st)))
        = Some [GatewayRoute ''0.0.0.0/0'' (internetGatewayId ?out)]"
      by (simp add: public_rt_decl_def result_outputs_def)
    have "map (\<lambda>j. None :: 'a route list option) [0..<?n] = replicate ?n None"
      by (simp add: map_replicate_const)
    then show ?thesis
      unfolding R(3) of_kind_graph by (simp add: pr pu o_def)
  qed
  have tables': "\<forall>i<length zs. \<exists>t v tg. privateRouteTableIds ?out ! i = eng t AttrId \<and>
        at st' t = Some (Decl (name @ ''-private-rt-'' @ zs ! i) (Some (length st))
          (Ec2RouteTable v None tg))"
    using tables by blast
  show ?thesis
    by (intro exI [of _ ?out] conjI; (rule R(1) ids none tables' routes))
qed

theorem Vpc_nat_disabled_witness:
  "validateArgs (basic_args\<lparr>enableNatGateway := Some False\<rparr>) = Inr () \<and>
   enableNatGateway (basic_args\<lparr>enableNatGateway := Some False\<rparr>) = Some False \<and>
   (\<exists>out. fst (Vpc Pair ''example-vpc'' (basic_args\<lparr>enableNatGateway := Some False\<rparr>) []) = Inr out \<and>
      natGatewayIds out = [] \<and>
      of_kind KNatGateway
        (snd (Vpc Pair ''example-vpc'' (basic_args\<lparr>enableNatGateway := Some False\<rparr>) [])) = [] \<and>
      length (privateRouteTableIds out) = 2)"
proof -
  let ?a = "basic_args\<lparr>enableNatGateway := Some False\<rparr>"
  have v: "validateArgs ?a = Inr ()" by code_simp
  have z: "availabilityZones ?a = Some [''us-east-1a'', ''us-east-1b'']"
    and n: "enableNatGateway ?a = Some False"
    by (simp_all add: basic_args_def)
  from Vpc_nat_disabled [where eng = Pair and name = "''example-vpc''" and st = "[]",
      OF v z n prod.collapse [symmetric]]
  obtain out where o: "fst (Vpc Pair ''example-vpc'' ?a []) = Inr out"
      "natGatewayIds out = []"
      "of_kind KNatGateway (snd (Vpc Pair ''example-vpc'' ?a [])) = []"
      "length (privateRouteTableIds out) = 2"
    by auto
  show ?thesis by (intro conjI exI [of _ out]) (rule v n o)+
qed

text \<open>
  Claim C4. For every valid configuration: when the flow-logging flag is enabled (not set
  to false), the log sink, the trust role, the role policy and the flow-log binding are
  each declared once and wired to each other, and the flow-log output is the identifier of
  the binding; when the flag is false none of the four is declared, the constructor still
  returns, and the flow-log output is the explicit absent value.
\<close>

theorem Vpc_flow_logs:
  assumes v: "validateArgs args = Inr ()"
    and run: "Vpc eng name args st = (r, st')"
  shows "\<exists>out. r = Inr out \<and>
     (enableFlowLogs args \<noteq> Some False \<longrightarrow>
        (\<exists>lg role fl v days actions tg1 tg2 tg3.
           of_kind KLogGroup (drop (length st) st') =
             [Decl (name @ ''-flow-logs'') (Some (length st))
                (CloudwatchLogGroup (''/aws/vpc/flow-logs/'' @ name) days tg1)] \<and>
           at st' lg = Some (Decl (name @ ''-flow-logs'') (Some (length st))
                (CloudwatchLogGroup (''/aws/vpc/flow-logs/'' @ name) days tg1)) \<and>
           of_kind KRole (drop (length st) st') =
             [Decl (name @ ''-flow-log-role'') (Some (length st))
                (IamRole (Service ''vpc-flow-logs.amazonaws.com'') tg2)] \<and>
           at st' role = Some (Decl (name @ ''-flow-log-role'') (Some (length st))
                (IamRole (Service ''vpc-flow-logs.amazonaws.com'') tg2)) \<and>
           of_kind KRolePolicy (drop (length st) st') =
             [Decl (name @ ''-flow-log-policy'') (Some (length st))
                (IamRolePolicy (eng role AttrId)
                   (PolicyDocument ''2012-10-17'' [Statement ''Allow'' actions (eng lg AttrArn)]))] \<and>
           of_kind KFlowLog (drop (length st) st') =
             [Decl (name @ ''-flow-log'') (Some (length st))
                (Ec2FlowLog v ''ALL'' (eng lg AttrArn) (eng role AttrArn) tg3)] \<and>
           at st' fl = Some (Decl (name @ ''-flow-log'') (Some (length st))
                (Ec2FlowLog v ''ALL'' (eng lg AttrArn) (eng role AttrArn) tg3)) \<and>
           vpcId out = v \<and>
           flowLogId out = Some (eng fl AttrId))) \<and>
     (enableFlowLogs args = Some False \<longrightarrow>
        of_kind KLogGroup (drop (length st) st') = [] \<and>
        of_kind KRole (drop (length st) st') = [] \<and>
        of_kind KRolePolicy (drop (length st) st') = [] \<and>
        of_kind KFlowLog (drop (length st) st') = [] \<and>
        flowLogId out = None)"
proof -
  obtain zs ps qs where z: "availabilityZones args = Some zs"
    and p: "publicSubnetCidrs args = Some ps" and q: "privateSubnetCidrs args = Some qs"
    using validateArgs_shape [OF v] by blast
  note R = Vpc_run [OF v z p q run]
  let ?n = "length zs"
  let ?out = "result_outputs eng args (length st) ?n"
  let ?g = "graph eng name args (length st) zs ps qs"
  let ?w = "nat_width args ?n"
  have off: "enableFlowLogs args = Some False \<longrightarrow>
        of_kind KLogGroup (drop (length st) st') = [] \<and>
        of_kind KRole (drop (length st) st') = [] \<and>
        of_kind KRolePolicy (drop (length st) st') = [] \<and>
        of_kind KFlowLog (drop (length st) st') = [] \<and>
        flowLogId ?out = None"
    unfolding R(3) of_kind_graph by (simp add: result_outputs_def)
  have on: "\<exists>lg role fl v days actions tg1 tg2 tg3.
           of_kind KLogGroup (drop (length st) st') =
             [Decl (name @ ''-flow-logs'') (Some (length st))
                (CloudwatchLogGroup (''/aws/vpc/flow-logs/'' @ name) days tg1)] \<and>
           at st' lg = Some (Decl (name @ ''-flow-logs'') (Some (length st))
                (CloudwatchLogGroup (''/aws/vpc/flow-logs/'' @ name) days tg1)) \<and>
           of_kind KRole (drop (length st) st') =
             [Decl (name @ ''-flow-log-role'') (Some (length st))
                (IamRole (Service ''vpc-flow-logs.amazonaws.com'') tg2)] \<and>
           at st' role = Some (Decl (name @ ''-flow-log-role'') (Some (length st))
                (IamRole (Service ''vpc-flow-logs.amazonaws.com'') tg2)) \<and>
           of_kind KRolePolicy (drop (length st) st') =
             [Decl (name @ ''-flow-log-policy'') (Some (length st))
                (IamRolePolicy (eng role AttrId)
                   (PolicyDocument ''2012-10-17'' [Statement ''Allow'' actions (eng lg AttrArn)]))] \<and>
           of_kind KFlowLog (drop (length st) st') =
             [Decl (name @ ''-flow-log'') (Some (length st))
                (Ec2FlowLog v ''ALL'' (eng lg AttrArn) (eng role AttrArn) tg3)] \<and>
           at st' fl = Some (Decl (name @ ''-flow-log'') (Some (length st))
                (Ec2FlowLog v ''ALL'' (eng lg AttrArn) (eng role AttrArn) tg3)) \<and>
           vpcId ?out = v \<and>
           flowLogId ?out = Some (eng fl AttrId)"
    if flow: "enableFlowLogs args \<noteq> Some False"
  proof -
    let ?lg = "length st + (5 + 5 * ?n + ?w)"
    let ?role = "length st + (6 + 5 * ?n + ?w)"
    let ?fl = "length st + (8 + 5 * ?n + ?w)"
    have lt: "5 + 5 * ?n + ?w < length ?g" "6 + 5 * ?n + ?w < length ?g" "8 + 5 * ?n + ?w < length ?g"
      using flow by (simp_all add: length_graph)
    have a: "at st' ?lg = Some (log_group_decl name args (length st))"
      unfolding R(2) at_append_graph [OF lt(1)] using flow by (simp add: graph_nth_flow)
    have b: "at st' ?role = Some (role_decl name args (length st))"
      unfolding R(2) at_append_graph [OF lt(2)] using flow by (simp add: graph_nth_flow)
    have c: "at st' ?fl = Some (flow_log_decl eng name args (length st) ?n)"
      unfolding R(2) at_append_graph [OF lt(3)] using flow by (simp add: graph_nth_flow)
    have h: "length st + 5 + 5 * ?n + ?w = ?lg" "length st + 6 + 5 * ?n + ?w = ?role"
        "length st + 8 + 5 * ?n + ?w = ?fl"
      by simp_all
    have o: "flowLogId ?out = Some (eng ?fl AttrId)" "vpcId ?out = eng (length st + 1) AttrId"
      using flow by (simp_all add: result_outputs_def h)
    have k: "of_kind KLogGroup (drop (length st) st') = [log_group_decl name args (length st)]"
        "of_kind KRole (drop (length st) st') = [role_decl name args (length st)]"
        "of_kind KRolePolicy (drop (length st) st') = [role_policy_decl eng name args (length st) ?n]"
        "of_kind KFlowLog (drop (length st) st') = [flow_log_decl eng name args (length st) ?n]"
      unfolding R(3) of_kind_graph using flow by simp_all
    show ?thesis
      using a b c o k
      unfolding log_group_decl_def role_decl_def role_policy_decl_def flow_log_decl_def h
      by (intro exI [of _ ?lg] exI [of _ ?role] exI [of _ ?fl]) auto
  qed
  show ?thesis using R(1) on off by blast
qed

theorem Vpc_flow_logs_witness:
  "validateArgs basic_args = Inr () \<and>
   (\<exists>out fl. fst (Vpc Pair ''example-vpc'' basic_args []) = Inr out \<and>
      flowLogId out = Some (fl, AttrId)) \<and>
   validateArgs (basic_args\<lparr>enableFlowLogs := Some False\<rparr>) = Inr () \<and>
   (\<exists>out. fst (Vpc Pair ''example-vpc'' (basic_args\<lparr>enableFlowLogs := Some False\<rparr>) []) = Inr out \<and>
      flowLogId out = None \<and>
      of_kind KLogGroup
        (snd (Vpc Pair ''example-vpc'' (basic_args\<lparr>enableFlowLogs := Some False\<rparr>) [])) = [])"
proof -
  let ?a = "basic_args\<lparr>enableFlowLogs := Some False\<rparr>"
  have v: "validateArgs basic_args = Inr ()" by (rule example_args_valid)
  have v': "validateArgs ?a = Inr ()" by code_simp
  have f: "enableFlowLogs basic_args \<noteq> Some False" and f': "enableFlowLogs ?a = Some False"
    by (simp_all add: basic_args_def)
  from Vpc_flow_logs [where eng = Pair and name = "''example-vpc''" and st = "[]",
      OF v prod.collapse [symmetric]] f
  obtain out fl where o: "fst (Vpc Pair ''example-vpc'' basic_args []) = Inr out"
      "flowLogId out = Some (fl, AttrId)"
    by auto
  from Vpc_flow_logs [where eng = Pair and name = "''example-vpc''" and st = "[]",
      OF v' prod.collapse [symmetric]] f'
  obtain out' where o': "fst (Vpc Pair ''example-vpc'' ?a []) = Inr out'"
      "flowLogId out' = None"
      "of_kind KLogGroup (snd (Vpc Pair ''example-vpc'' ?a [])) = []"
    by auto
  have a: "\<exists>out fl. fst (Vpc Pair ''example-vpc'' basic_args []) = Inr out \<and>
      flowLogId out = Some (fl, AttrId)"
    using o by blast
  have b: "\<exists>out. fst (Vpc Pair ''example-vpc'' ?a []) = Inr out \<and> flowLogId out = None \<and>
      of_kind KLogGroup (snd (Vpc Pair ''example-vpc'' ?a [])) = []"
    using o' by blast
  show ?thesis by (intro conjI) (rule v v' a b)+
qed

text \<open>
  Claim C7. For every configuration that violates a validation rule, the constructor
  throws the validation error before it declares any resource: the failing run has
  registered the component itself (the call of the base class constructor) and nothing
  else, so no network, gateway, subnet, route table or logging resource.
\<close>

theorem Vpc_validation_before_declaration:
  assumes bad: "validateArgs args = Inl e"
    and run: "Vpc eng name args st = (r, st')"
  shows "r = Inl e \<and>
     st' = st @ [Decl name None (ComponentResource ''proserve:aws:Vpc'' args)] \<and>
     (\<forall>d\<in>set (drop (length st) st'). kind_of (decl_resource d) = KComponent)"
  using Vpc_invalid [OF bad, of eng name st] run by auto

theorem Vpc_validation_before_declaration_witness:
  "validateArgs (advanced_args\<lparr>publicSubnetCidrs := Some [''172.16.1.0/24'', ''172.16.2.0/24'']\<rparr>)
     = Inl (Error
         ''publicSubnetCidrs must be provided and match the number of availability zones'') \<and>
   fst (Vpc Pair ''advanced-vpc''
      (advanced_args\<lparr>publicSubnetCidrs := Some [''172.16.1.0/24'', ''172.16.2.0/24'']\<rparr>) [])
     = Inl (Error
         ''publicSubnetCidrs must be provided and match the number of availability zones'') \<and>
   snd (Vpc Pair ''advanced-vpc''
      (advanced_args\<lparr>publicSubnetCidrs := Some [''172.16.1.0/24'', ''172.16.2.0/24'']\<rparr>) [])
     = [Decl ''advanced-vpc'' None (ComponentResource ''proserve:aws:Vpc''
         (advanced_args\<lparr>publicSubnetCidrs := Some [''172.16.1.0/24'', ''172.16.2.0/24'']\<rparr>))]"
proof -
  let ?bad = "advanced_args\<lparr>publicSubnetCidrs := Some [''172.16.1.0/24'', ''172.16.2.0/24'']\<rparr>"
  have bad: "validateArgs ?bad = Inl (Error
      ''publicSubnetCidrs must be provided and match the number of availability zones'')"
    by code_simp
  from Vpc_validation_before_declaration [where eng = Pair and name = "''advanced-vpc''" and st = "[]",
      OF bad prod.collapse [symmetric]]
  have "fst (Vpc Pair ''advanced-vpc'' ?bad []) = Inl (Error
      ''publicSubnetCidrs must be provided and match the number of availability zones'')"
    and "snd (Vpc Pair ''advanced-vpc'' ?bad [])
      = [Decl ''advanced-vpc'' None (ComponentResource ''proserve:aws:Vpc'' ?bad)]"
    by simp_all
  with bad show ?thesis by simp
qed

text \<open>
  Claim C8. Two independent passes over the same configuration, under any two assignments
  \<open>e1\<close> and \<open>e2\<close> of engine values, build the same graph up to the engine-assigned values:
  both results are renamings of the one result built over symbolic references (a handle
  and an attribute), so the counts, the wiring and the properties of the resources agree,
  and erasing the engine-assigned values gives equal graphs.
\<close>

theorem Vpc_independent_of_engine_ids:
  "\<exists>r g. Vpc Pair name args st0 = (r, g) \<and>
     Vpc e1 name args (map (map_decl (\<lambda>(h, a). e1 h a)) st0) =
       (map_sum id (map_outputs (\<lambda>(h, a). e1 h a)) r, map (map_decl (\<lambda>(h, a). e1 h a)) g) \<and>
     Vpc e2 name args (map (map_decl (\<lambda>(h, a). e2 h a)) st0) =
       (map_sum id (map_outputs (\<lambda>(h, a). e2 h a)) r, map (map_decl (\<lambda>(h, a). e2 h a)) g) \<and>
     length (snd (Vpc e1 name args [])) = length (snd (Vpc e2 name args [])) \<and>
     map (map_decl (\<lambda>_. ())) (snd (Vpc e1 name args [])) =
       map (map_decl (\<lambda>_. ())) (snd (Vpc e2 name args []))"
proof -
  obtain r g where rg: "Vpc Pair name args st0 = (r, g)" by (cases "Vpc Pair name args st0")
  obtain r0 g0 where rg0: "Vpc Pair name args [] = (r0, g0)" by (cases "Vpc Pair name args []")
  have a: "snd (Vpc e1 name args []) = map (map_decl (\<lambda>(h, a). e1 h a)) g0"
    using Vpc_rename [OF rg0, of e1] by simp
  have b: "snd (Vpc e2 name args []) = map (map_decl (\<lambda>(h, a). e2 h a)) g0"
    using Vpc_rename [OF rg0, of e2] by simp
  have len: "length (snd (Vpc e1 name args [])) = length (snd (Vpc e2 name args []))"
    unfolding a b by simp
  have er: "map (map_decl (\<lambda>_. ())) (snd (Vpc e1 name args [])) =
       map (map_decl (\<lambda>_. ())) (snd (Vpc e2 name args []))"
    unfolding a b by (simp add: decl.map_comp o_def split_def)
  show ?thesis
    by (intro exI [of _ r] exI [of _ g] conjI; (rule rg Vpc_rename [OF rg] len er))
qed

theorem Vpc_independent_of_engine_ids_witness:
  "\<exists>r g. Vpc Pair ''example-vpc'' basic_args [] = (r, g) \<and>
     Vpc (\<lambda>h a. h) ''example-vpc'' basic_args [] =
       (map_sum id (map_outputs (\<lambda>(h, a). h)) r, map (map_decl (\<lambda>(h, a). h)) g) \<and>
     Vpc (\<lambda>h a. 1000 + h) ''example-vpc'' basic_args [] =
       (map_sum id (map_outputs (\<lambda>(h, a). 1000 + h)) r, map (map_decl (\<lambda>(h, a). 1000 + h)) g)"
  using Vpc_independent_of_engine_ids
    [of "''example-vpc''" basic_args "[]" "\<lambda>h a. h" "\<lambda>h a. 1000 + h"]
  by auto

text \<open>
  Claim C9, as stated, fails: it says that every resource other than the network carries
  only tags named \<open>Name\<close>, \<open>Environment\<close>, \<open>Project\<close> or \<open>ManagedBy\<close>, and the subnets and
  route tables also carry the tag \<open>Type\<close>. In the basic example, the first public subnet
  (the declaration at position 3) has \<open>Type = public\<close>.
\<close>

theorem Vpc_extra_tags_counterexample:
  "kind_of (decl_resource (snd (Vpc Pair ''example-vpc'' basic_args []) ! 3)) = KSubnet \<and>
   resource_tags (decl_resource (snd (Vpc Pair ''example-vpc'' basic_args []) ! 3)) ''Type''
     = Some (Some ''public'') \<and>
   ''Type'' \<notin> {''Name'', ''Environment'', ''Project'', ''ManagedBy''}"
proof -
  have z: "availabilityZones basic_args = Some [''us-east-1a'', ''us-east-1b'']"
    and p: "publicSubnetCidrs basic_args = Some [''10.0.1.0/24'', ''10.0.2.0/24'']"
    and q: "privateSubnetCidrs basic_args = Some [''10.0.11.0/24'', ''10.0.12.0/24'']"
    by (simp_all add: basic_args_def)
  let ?g = "graph Pair ''example-vpc'' basic_args 0 [''us-east-1a'', ''us-east-1b'']
      [''10.0.1.0/24'', ''10.0.2.0/24''] [''10.0.11.0/24'', ''10.0.12.0/24'']"
  have s: "snd (Vpc Pair ''example-vpc'' basic_args []) = ?g"
    using Vpc_closed_form [OF example_args_valid(1) z p q, of Pair "''example-vpc''" "[]"] by simp
  have "?g ! (3 + 0) = public_subnet_decl Pair ''example-vpc'' basic_args 0
      [''us-east-1a'', ''us-east-1b''] [''10.0.1.0/24'', ''10.0.2.0/24''] 0"
    by (rule graph_nth) simp
  then have n: "?g ! 3 = public_subnet_decl Pair ''example-vpc'' basic_args 0
      [''us-east-1a'', ''us-east-1b''] [''10.0.1.0/24'', ''10.0.2.0/24''] 0"
    by simp
  show ?thesis unfolding s n by (simp add: tags_of_decls)
qed

text \<open>
  Claim C9, amended. The caller's extra tags are merged into the tag set of the network
  resource only, where on a key collision they override the standard tags \<open>Name\<close>,
  \<open>Environment\<close>, \<open>Project\<close> and \<open>ManagedBy\<close>. Every other declared resource carries standard
  tags only, never the caller's: its tags are among \<open>Name\<close>, \<open>Environment\<close>, \<open>Project\<close> and
  \<open>ManagedBy\<close> with their standard values and the visibility tag \<open>Type\<close>, which only
  subnets and route tables have.
\<close>

theorem Vpc_extra_tags_only_on_vpc:
  assumes v: "validateArgs args = Inr ()"
    and run: "Vpc eng name args st = (r, st')"
  shows "\<exists>out. r = Inr out \<and>
     (\<exists>h c t tg. vpcId out = eng h AttrId \<and>
        at st' h = Some (Decl (name @ ''-vpc'') (Some (length st)) (Ec2Vpc c True True t tg)) \<and>
        of_kind KVpc (drop (length st) st') =
          [Decl (name @ ''-vpc'') (Some (length st)) (Ec2Vpc c True True t tg)] \<and>
        (\<forall>k. tg k = (case extra_tag args k of
            Some x \<Rightarrow> Some (Some x)
          | None \<Rightarrow> [''Name'' \<mapsto> Some (name @ ''-vpc''), ''Environment'' \<mapsto> environment args,
                     ''Project'' \<mapsto> project args, ''ManagedBy'' \<mapsto> Some ''pulumi''] k))) \<and>
     (\<forall>d\<in>set (drop (length st) st'). kind_of (decl_resource d) \<noteq> KVpc \<longrightarrow> standard_only args d) \<and>
     (\<forall>d\<in>set (drop (length st) st'). kind_of (decl_resource d) \<notin> {KVpc, KSubnet, KRouteTable} \<longrightarrow>
        resource_tags (decl_resource d) ''Type'' = None)"
proof -
  obtain zs ps qs where z: "availabilityZones args = Some zs"
    and p: "publicSubnetCidrs args = Some ps" and q: "privateSubnetCidrs args = Some qs"
    using validateArgs_shape [OF v] by blast
  note R = Vpc_run [OF v z p q run]
  let ?out = "result_outputs eng args (length st) (length zs)"
  let ?g = "graph eng name args (length st) zs ps qs"
  let ?std = "[''Name'' \<mapsto> Some (name @ ''-vpc''), ''Environment'' \<mapsto> environment args,
      ''Project'' \<mapsto> project args, ''ManagedBy'' \<mapsto> Some ''pulumi'']"
  have lt: "1 < length ?g" by (simp add: length_graph)
  have a: "at st' (length st + 1) = Some (vpc_decl name args (length st))"
    unfolding R(2) at_append_graph [OF lt] by (simp add: graph_def)
  have o: "vpcId ?out = eng (length st + 1) AttrId" by (simp add: result_outputs_def)
  have k: "of_kind KVpc (drop (length st) st') = [vpc_decl name args (length st)]"
    unfolding R(3) of_kind_graph ..
  have merge: "spread ?std (tags args) k = (case extra_tag args k of
            Some x \<Rightarrow> Some (Some x) | None \<Rightarrow> ?std k)" for k
    by (cases "tags args") (auto simp: spread_def extra_tag_def map_add_def split: option.splits)
  have vpc: "\<exists>h c t tg. vpcId ?out = eng h AttrId \<and>
        at st' h = Some (Decl (name @ ''-vpc'') (Some (length st)) (Ec2Vpc c True True t tg)) \<and>
        of_kind KVpc (drop (length st) st') =
          [Decl (name @ ''-vpc'') (Some (length st)) (Ec2Vpc c True True t tg)] \<and>
        (\<forall>k. tg k = (case extra_tag args k of
            Some x \<Rightarrow> Some (Some x) | None \<Rightarrow> ?std k))"
    using a o k merge unfolding vpc_decl_def
    by (intro exI [of _ "length st + 1"] exI [of _ "cidrBlock args"]
        exI [of _ "or_string (instanceTenancy args) ''default''"]
        exI [of _ "spread ?std (tags args)"]) blast
  have others: "\<forall>d\<in>set (drop (length st) st'). kind_of (decl_resource d) \<noteq> KVpc \<longrightarrow>
      standard_only args d"
    unfolding R(3) using graph_standard_only by blast
  have no_type: "\<forall>d\<in>set (drop (length st) st').
      kind_of (decl_resource d) \<notin> {KVpc, KSubnet, KRouteTable} \<longrightarrow>
        resource_tags (decl_resource d) ''Type'' = None"
    unfolding R(3) using graph_no_type_tag by blast
  show ?thesis
    by (intro exI [of _ ?out] conjI; (rule R(1) vpc others no_type))
qed

theorem Vpc_extra_tags_only_on_vpc_witness:
  "validateArgs (basic_args\<lparr>tags := Some [''Name'' \<mapsto> ''custom'', ''Owner'' \<mapsto> ''me'']\<rparr>) = Inr () \<and>
   (\<exists>out h c t tg.
      fst (Vpc Pair ''example-vpc''
        (basic_args\<lparr>tags := Some [''Name'' \<mapsto> ''custom'', ''Owner'' \<mapsto> ''me'']\<rparr>) []) = Inr out \<and>
      vpcId out = (h, AttrId) \<and>
      at (snd (Vpc Pair ''example-vpc''
        (basic_args\<lparr>tags := Some [''Name'' \<mapsto> ''custom'', ''Owner'' \<mapsto> ''me'']\<rparr>) [])) h =
        Some (Decl ''example-vpc-vpc'' (Some 0) (Ec2Vpc c True True t tg)) \<and>
      tg ''Name'' = Some (Some ''custom'') \<and> tg ''Owner'' = Some (Some ''me'') \<and>
      tg ''ManagedBy'' = Some (Some ''pulumi''))"
proof -
  let ?a = "basic_args\<lparr>tags := Some [''Name'' \<mapsto> ''custom'', ''Owner'' \<mapsto> ''me'']\<rparr>"
  have "validateArgs ?a = validateArgs basic_args" by (simp add: validateArgs_def)
  then have v: "validateArgs ?a = Inr ()" by (simp only: example_args_valid)
  have e: "extra_tag ?a ''Name'' = Some ''custom''" "extra_tag ?a ''Owner'' = Some ''me''"
      "extra_tag ?a ''ManagedBy'' = None"
    by (simp_all add: extra_tag_def)
  note T = Vpc_extra_tags_only_on_vpc [where eng = Pair and name = "''example-vpc''" and st = "[]",
      OF v prod.collapse [symmetric]]
  from T obtain out h c t tg where raw: "fst (Vpc Pair ''example-vpc'' ?a []) = Inr out"
      "vpcId out = (h, AttrId)"
      "at (snd (Vpc Pair ''example-vpc'' ?a [])) h =
        Some (Decl (''example-vpc'' @ ''-vpc'') (Some (length ([] :: (nat \<times> attr) decl list)))
            (Ec2Vpc c True True t tg))"
      "\<forall>k. tg k = (case extra_tag ?a k of
            Some x \<Rightarrow> Some (Some x)
          | None \<Rightarrow> [''Name'' \<mapsto> Some (''example-vpc'' @ ''-vpc''),
                     ''Environment'' \<mapsto> environment ?a,
                     ''Project'' \<mapsto> project ?a, ''ManagedBy'' \<mapsto> Some ''pulumi''] k)"
    by (elim exE conjE) (rule that; assumption)
  note o = raw(1,2) raw(3) [simplified]
  have t: "tg ''Name'' = Some (Some ''custom'')" "tg ''Owner'' = Some (Some ''me'')"
      "tg ''ManagedBy'' = Some (Some ''pulumi'')"
    using raw(4) e by simp_all
  show ?thesis by (intro conjI exI [of _ out] exI [of _ h] exI [of _ c] exI [of _ t] exI [of _ tg])
      (rule v o(1,2,3) t)+
qed

text \<open>
  Claim C10. When flow logging is enabled, a configured retention of 0 days, like every
  falsy retention (a missing one, \<^verbatim>\<open>NaN\<close>), is replaced by the default of 7 days in the
  declared log sink.
\<close>

theorem Vpc_flow_log_retention_default:
  assumes v: "validateArgs args = Inr ()"
    and flow: "enableFlowLogs args \<noteq> Some False"
    and days: "flowLogRetentionDays args = None \<or> flowLogRetentionDays args = Some (Num 0) \<or>
        flowLogRetentionDays args = Some NaN"
    and run: "Vpc eng name args st = (r, st')"
  shows "\<exists>tg. of_kind KLogGroup (drop (length st) st') =
     [Decl (name @ ''-flow-logs'') (Some (length st))
        (CloudwatchLogGroup (''/aws/vpc/flow-logs/'' @ name) (Num 7) tg)]"
proof -
  obtain zs ps qs where z: "availabilityZones args = Some zs"
    and p: "publicSubnetCidrs args = Some ps" and q: "privateSubnetCidrs args = Some qs"
    using validateArgs_shape [OF v] by blast
  note R = Vpc_run [OF v z p q run]
  have "or_number (flowLogRetentionDays args) (Num 7) = Num 7"
    using days by (auto simp: or_number_def)
  then show ?thesis
    unfolding R(3) of_kind_graph using flow by (simp add: log_group_decl_def)
qed

theorem Vpc_flow_log_retention_default_witness:
  "validateArgs (basic_args\<lparr>flowLogRetentionDays := Some (Num 0)\<rparr>) = Inr () \<and>
   enableFlowLogs (basic_args\<lparr>flowLogRetentionDays := Some (Num 0)\<rparr>) = Some True \<and>
   flowLogRetentionDays (basic_args\<lparr>flowLogRetentionDays := Some (Num 0)\<rparr>) = Some (Num 0) \<and>
   (\<exists>tg. of_kind KLogGroup
       (snd (Vpc Pair ''example-vpc'' (basic_args\<lparr>flowLogRetentionDays := Some (Num 0)\<rparr>) [])) =
     [Decl ''example-vpc-flow-logs'' (Some 0)
        (CloudwatchLogGroup ''/aws/vpc/flow-logs/example-vpc'' (Num 7) tg)])"
proof -
  let ?a = "basic_args\<lparr>flowLogRetentionDays := Some (Num 0)\<rparr>"
  have v: "validateArgs ?a = Inr ()" by code_simp
  have f: "enableFlowLogs ?a = Some True" and d: "flowLogRetentionDays ?a = Some (Num 0)"
    by (simp_all add: basic_args_def)
  have f': "enableFlowLogs ?a \<noteq> Some False" using f by simp
  have d': "flowLogRetentionDays ?a = None \<or> flowLogRetentionDays ?a = Some (Num 0) \<or>
      flowLogRetentionDays ?a = Some NaN"
    using d by simp
  from Vpc_flow_log_retention_default [where eng = Pair and name = "''example-vpc''" and st = "[]",
      OF v f' d' prod.collapse [symmetric]]
  have "\<exists>tg. of_kind KLogGroup (snd (Vpc Pair ''example-vpc'' ?a [])) =
     [Decl ''example-vpc-flow-logs'' (Some 0)
        (CloudwatchLogGroup ''/aws/vpc/flow-logs/example-vpc'' (Num 7) tg)]"
    by simp
  with v f d show ?thesis by blast
qed

end
